theory Spec2Isabelle
  imports Main "HOL-Library.Sublist"
begin

section \<open>Strings\<close>

text \<open>
  A string is a list of bytes (\<open>char\<close>): ASCII text as it is, other text as its UTF-8
  encoding. The JavaScript string methods the worker uses are modelled on that reading:
  \<^verbatim>\<open>split\<close> and \<^verbatim>\<open>join\<close> on an ASCII separator cut at the same places in both readings;
  \<^verbatim>\<open>toLowerCase\<close> acts on ASCII letters and leaves every other byte alone (it is applied to
  the allow-list, which is compared with an ASCII host name, and to the Content-Type header,
  which is searched for ASCII words).
\<close>

fun split_on :: "char \<Rightarrow> string \<Rightarrow> string list" where
  "split_on sep [] = [[]]"
| "split_on sep (c # cs) =
     (if c = sep then [] # split_on sep cs
      else (case split_on sep cs of
              w # ws \<Rightarrow> (c # w) # ws
            | [] \<Rightarrow> [[c]]))"

fun join :: "string \<Rightarrow> string list \<Rightarrow> string" where
  "join sep [] = []"
| "join sep [w] = w"
| "join sep (w # v # ws) = w @ sep @ join sep (v # ws)"

definition startsWith :: "string \<Rightarrow> string \<Rightarrow> bool" where
  "startsWith s p = prefix p s"

definition endsWith :: "string \<Rightarrow> string \<Rightarrow> bool" where
  "endsWith s p = suffix p s"

definition includes_str :: "string \<Rightarrow> string \<Rightarrow> bool" where
  "includes_str s p = sublist p s"

definition is_upper :: "char \<Rightarrow> bool" where
  "is_upper c \<longleftrightarrow> 65 \<le> (of_char c :: nat) \<and> (of_char c :: nat) \<le> 90"

definition is_lower :: "char \<Rightarrow> bool" where
  "is_lower c \<longleftrightarrow> 97 \<le> (of_char c :: nat) \<and> (of_char c :: nat) \<le> 122"

definition is_digit :: "char \<Rightarrow> bool" where
  "is_digit c \<longleftrightarrow> 48 \<le> (of_char c :: nat) \<and> (of_char c :: nat) \<le> 57"

definition toLowerCase :: "string \<Rightarrow> string" where
  "toLowerCase s = map (\<lambda>c. if is_upper c then char_of (of_char c + (32::nat)) else c) s"

definition is_space :: "char \<Rightarrow> bool" where
  "is_space c \<longleftrightarrow> (of_char c :: nat) \<in> {9, 10, 11, 12, 13, 32}"

text \<open>
  \<^verbatim>\<open>String.prototype.trim\<close> strips, at both ends, the white space and the line terminators
  of ECMAScript: \<^verbatim>\<open>U+0009\<close> to \<^verbatim>\<open>U+000D\<close>, \<^verbatim>\<open>U+0020\<close>, \<^verbatim>\<open>U+00A0\<close>, \<^verbatim>\<open>U+1680\<close>,
  \<^verbatim>\<open>U+2000\<close> to \<^verbatim>\<open>U+200A\<close>, \<^verbatim>\<open>U+2028\<close>, \<^verbatim>\<open>U+2029\<close>, \<^verbatim>\<open>U+202F\<close>, \<^verbatim>\<open>U+205F\<close>,
  \<^verbatim>\<open>U+3000\<close> and \<^verbatim>\<open>U+FEFF\<close>, here each as its UTF-8 bytes.
\<close>

definition white_space :: "string list" where
  "white_space =
     [[CHR 0x09], [CHR 0x0A], [CHR 0x0B], [CHR 0x0C], [CHR 0x0D], [CHR 0x20],
      [CHR 0xC2, CHR 0xA0], [CHR 0xE1, CHR 0x9A, CHR 0x80],
      [CHR 0xE2, CHR 0x80, CHR 0x80], [CHR 0xE2, CHR 0x80, CHR 0x81],
      [CHR 0xE2, CHR 0x80, CHR 0x82], [CHR 0xE2, CHR 0x80, CHR 0x83],
      [CHR 0xE2, CHR 0x80, CHR 0x84], [CHR 0xE2, CHR 0x80, CHR 0x85],
      [CHR 0xE2, CHR 0x80, CHR 0x86], [CHR 0xE2, CHR 0x80, CHR 0x87],
      [CHR 0xE2, CHR 0x80, CHR 0x88], [CHR 0xE2, CHR 0x80, CHR 0x89],
      [CHR 0xE2, CHR 0x80, CHR 0x8A], [CHR 0xE2, CHR 0x80, CHR 0xA8],
      [CHR 0xE2, CHR 0x80, CHR 0xA9], [CHR 0xE2, CHR 0x80, CHR 0xAF],
      [CHR 0xE2, CHR 0x81, CHR 0x9F], [CHR 0xE3, CHR 0x80, CHR 0x80],
      [CHR 0xEF, CHR 0xBB, CHR 0xBF]]"

function strip_start :: "string list \<Rightarrow> string \<Rightarrow> string" where
  "strip_start ws s =
     (case find (\<lambda>w. w \<noteq> [] \<and> prefix w s) ws of
        None \<Rightarrow> s
      | Some w \<Rightarrow> strip_start ws (drop (length w) s))"
  by pat_completeness auto

termination
  by (relation "measure (\<lambda>(ws, s). length s)") (auto simp: find_Some_iff prefix_def)

definition trim :: "string \<Rightarrow> string" where
  "trim s = rev (strip_start (map rev white_space) (rev (strip_start white_space s)))"

text \<open>\<^verbatim>\<open>Number.prototype.toString()\<close> of a non-negative integer: its decimal digits.\<close>

fun toString :: "nat \<Rightarrow> string" where
  "toString n =
     (if n < 10 then [char_of (48 + n)]
      else toString (n div 10) @ [char_of (48 + n mod 10)])"

declare toString.simps [simp del]

subsection \<open>\<^verbatim>\<open>parseInt\<close>\<close>

text \<open>
  \<^verbatim>\<open>parseInt(string, radix)\<close>, ECMAScript 19.2.5, on a header value (a byte string, so the
  white space it skips is the ASCII white space and the no-break space \<open>0xA0\<close>). The radix
  is \<open>None\<close> when the call passes none. \<open>None\<close> as a result is \<^verbatim>\<open>NaN\<close>. The result is the
  exact integer; a JavaScript number rounds it above \<open>2^53\<close>, which no comparison below
  with an integer under that bound can see.
\<close>

definition digit_val :: "char \<Rightarrow> nat option" where
  "digit_val c =
     (if is_digit c then Some (of_char c - 48)
      else if is_lower c then Some (of_char c - 87)
      else if is_upper c then Some (of_char c - 55)
      else None)"

definition is_radix_digit :: "nat \<Rightarrow> char \<Rightarrow> bool" where
  "is_radix_digit R c = (case digit_val c of Some d \<Rightarrow> d < R | None \<Rightarrow> False)"

definition digits_value :: "nat \<Rightarrow> string \<Rightarrow> int" where
  "digits_value R ds = foldl (\<lambda>acc c. acc * int R + int (the (digit_val c))) 0 ds"

definition parseInt :: "string \<Rightarrow> nat option \<Rightarrow> int option" where
  "parseInt inputString radix =
     (let S = dropWhile (\<lambda>c. is_space c \<or> of_char c = (160::nat)) inputString;
          sign = (if startsWith S ''-'' then - 1 else 1 :: int);
          S1 = (if startsWith S ''+'' \<or> startsWith S ''-'' then tl S else S);
          R0 = (case radix of None \<Rightarrow> 0 | Some r \<Rightarrow> r)
      in if R0 \<noteq> 0 \<and> (R0 < 2 \<or> 36 < R0) then None
         else
           let stripPrefix = (R0 = 0 \<or> R0 = 16);
               hex = (stripPrefix \<and> (startsWith S1 ''0x'' \<or> startsWith S1 ''0X''));
               R = (if hex then 16 else if R0 = 0 then 10 else R0);
               S2 = (if hex then drop 2 S1 else S1);
               Z = takeWhile (is_radix_digit R) S2
           in if Z = [] then None else Some (sign * digits_value R Z))"

subsection \<open>\<^verbatim>\<open>decodeURIComponent\<close> and \<^verbatim>\<open>encodeURIComponent\<close>\<close>

text \<open>
  \<^verbatim>\<open>decodeURIComponent\<close> (ECMAScript 19.2.6.5) replaces each escape \<^verbatim>\<open>%XX\<close> by its byte
  and throws \<^verbatim>\<open>URIError\<close> (here \<open>None\<close>) when a \<^verbatim>\<open>%\<close> is not followed by two hexadecimal
  digits or when the escaped bytes of 128 and above do not form well-formed UTF-8, each
  continuation byte being itself written as an escape. The string is first cut into
  tokens, an escaped byte or a literal one, and the tokens are then scanned for UTF-8.
\<close>

definition hex_val :: "char \<Rightarrow> nat option" where
  "hex_val c = (case digit_val c of Some d \<Rightarrow> (if d < 16 then Some d else None) | None \<Rightarrow> None)"

fun unescape :: "string \<Rightarrow> (bool \<times> nat) list option" where
  "unescape [] = Some []"
| "unescape (c # cs) =
     (if c = CHR ''%'' then
        (case cs of
           h1 # h2 # rest \<Rightarrow>
             (case (hex_val h1, hex_val h2) of
                (Some a, Some b) \<Rightarrow> map_option (Cons (True, 16 * a + b)) (unescape rest)
              | _ \<Rightarrow> None)
         | _ \<Rightarrow> None)
      else map_option (Cons (False, of_char c)) (unescape cs))"

text \<open>
  Well-formed UTF-8 of one code point in two to four bytes: not overlong, not a surrogate,
  at most \<open>U+10FFFF\<close>.
\<close>

definition valid_utf8 :: "nat list \<Rightarrow> bool" where
  "valid_utf8 bs =
     (case bs of
        [b0, b1] \<Rightarrow> 128 \<le> (b0 - 192) * 64 + (b1 - 128)
      | [b0, b1, b2] \<Rightarrow>
          (let cp = (b0 - 224) * 4096 + (b1 - 128) * 64 + (b2 - 128)
           in 2048 \<le> cp \<and> (cp < 55296 \<or> 57343 < cp))
      | [b0, b1, b2, b3] \<Rightarrow>
          (let cp = (b0 - 240) * 262144 + (b1 - 128) * 4096 + (b2 - 128) * 64 + (b3 - 128)
           in 65536 \<le> cp \<and> cp \<le> 1114111)
      | _ \<Rightarrow> False)"

text \<open>
  \<open>utf8_scan k acc ts\<close>: \<open>k\<close> continuation bytes are still due for the sequence whose
  bytes so far are \<open>acc\<close>.
\<close>

fun utf8_scan :: "nat \<Rightarrow> nat list \<Rightarrow> (bool \<times> nat) list \<Rightarrow> bool" where
  "utf8_scan k acc [] = (k = 0)"
| "utf8_scan 0 acc ((esc, b) # ts) =
     (if \<not> esc \<or> b < 128 then utf8_scan 0 [] ts
      else if 192 \<le> b \<and> b < 224 then utf8_scan 1 [b] ts
      else if 224 \<le> b \<and> b < 240 then utf8_scan 2 [b] ts
      else if 240 \<le> b \<and> b < 248 then utf8_scan 3 [b] ts
      else False)"
| "utf8_scan (Suc k) acc ((esc, b) # ts) =
     (esc \<and> 128 \<le> b \<and> b < 192 \<and>
      (if k = 0 then valid_utf8 (acc @ [b]) \<and> utf8_scan 0 [] ts
       else utf8_scan k (acc @ [b]) ts))"

definition decodeURIComponent :: "string \<Rightarrow> string option" where
  "decodeURIComponent s =
     (case unescape s of
        None \<Rightarrow> None
      | Some ts \<Rightarrow> if utf8_scan 0 [] ts then Some (map (\<lambda>t. char_of (snd t)) ts) else None)"

text \<open>
  \<^verbatim>\<open>encodeURIComponent\<close> keeps the unreserved characters
  \<^verbatim>\<open>A-Z a-z 0-9 - _ . ! ~ * ' ( )\<close> and writes every other byte of the UTF-8 encoding as
  \<^verbatim>\<open>%XX\<close> with upper-case digits.
\<close>

definition uri_unreserved :: "char \<Rightarrow> bool" where
  "uri_unreserved c \<longleftrightarrow> is_upper c \<or> is_lower c \<or> is_digit c \<or> c \<in> set ''-_.!~*'()''"

definition hex_digit :: "nat \<Rightarrow> char" where
  "hex_digit d = (if d < 10 then char_of (48 + d) else char_of (55 + d))"

definition encodeURIComponent :: "string \<Rightarrow> string" where
  "encodeURIComponent s =
     concat (map (\<lambda>c. if uri_unreserved c then [c]
                       else [CHR ''%'', hex_digit (of_char c div 16), hex_digit (of_char c mod 16)]) s)"

subsection \<open>\<^verbatim>\<open>atob\<close>\<close>

text \<open>
  \<^verbatim>\<open>atob\<close> is the forgiving Base64 decoding: ASCII white space is removed; when the length
  is then a multiple of four, one or two trailing \<^verbatim>\<open>=\<close> are removed; a length of one more
  than a multiple of four, or a character outside the alphabet, throws
  \<^verbatim>\<open>InvalidCharacterError\<close> (here \<open>None\<close>); every four characters give three bytes, and two
  or three remaining characters give one or two.
\<close>

definition base64_index :: "char \<Rightarrow> nat option" where
  "base64_index c =
     (if is_upper c then Some (of_char c - 65)
      else if is_lower c then Some (of_char c - 97 + 26)
      else if is_digit c then Some (of_char c - 48 + 52)
      else if c = CHR ''+'' then Some 62
      else if c = CHR ''/'' then Some 63
      else None)"

fun sextets_to_bytes :: "nat list \<Rightarrow> nat list" where
  "sextets_to_bytes (a # b # c # d # rest) =
     [a * 4 + b div 16, (b mod 16) * 16 + c div 4, (c mod 4) * 64 + d] @ sextets_to_bytes rest"
| "sextets_to_bytes [a, b, c] = [a * 4 + b div 16, (b mod 16) * 16 + c div 4]"
| "sextets_to_bytes [a, b] = [a * 4 + b div 16]"
| "sextets_to_bytes _ = []"

definition ascii_whitespace :: "char \<Rightarrow> bool" where
  "ascii_whitespace c \<longleftrightarrow> (of_char c :: nat) \<in> {9, 10, 12, 13, 32}"

definition strip_padding :: "string \<Rightarrow> string" where
  "strip_padding d =
     (if length d mod 4 \<noteq> 0 then d
      else if endsWith d ''=='' then take (length d - 2) d
      else if endsWith d ''='' then take (length d - 1) d
      else d)"

definition forgiving_base64_decode :: "string \<Rightarrow> nat list option" where
  "forgiving_base64_decode encoded =
     (let d = strip_padding (filter (\<lambda>c. \<not> ascii_whitespace c) encoded)
      in if length d mod 4 = 1 then None
         else map_option sextets_to_bytes (those (map base64_index d)))"

text \<open>
  The result of \<^verbatim>\<open>atob\<close> is a string with one character, of code \<open>0\<close> to \<open>255\<close>, for each
  decoded byte. Strings are held here as their UTF-8 bytes, which are also the bytes that
  \<^verbatim>\<open>new Response(string)\<close> sends: a character below \<open>128\<close> is one byte, a character from
  \<open>128\<close> to \<open>255\<close> is two.
\<close>

definition utf8_of_latin1 :: "nat \<Rightarrow> string" where
  "utf8_of_latin1 u =
     (if u < 128 then [char_of u] else [char_of (192 + u div 64), char_of (128 + u mod 64)])"

definition atob :: "string \<Rightarrow> string option" where
  "atob encoded = map_option (\<lambda>bs. concat (map utf8_of_latin1 bs)) (forgiving_base64_decode encoded)"

section \<open>URL parsing and validation (validation.ts)\<close>

datatype error = URIError | InvalidCharacterError | Error string

text \<open>
  The platform's \<^verbatim>\<open>URL\<close> object, by the parts the worker reads. \<^verbatim>\<open>searchParams.get\<close>
  answers the first value given for a name.
\<close>

record URL =
  href :: string
  hostname :: string
  pathname :: string
  searchParams :: "(string \<times> string) list"

record ParsedUrl =
  domain :: string
  path :: string
  sourceUrl :: string
  cacheKey :: string
  forceReprocess :: bool
  viewImage :: bool

subsection \<open>The path of a parsed URL\<close>

text \<open>
  \<^verbatim>\<open>new URL(request.url)\<close> does not keep the path as it was written. For an
  \<^verbatim>\<open>https\<close> URL the parser of the URL standard removes trailing C0 controls and spaces from
  the input and every tab, line feed and carriage return inside it; reads the path up to the
  first \<^verbatim>\<open>?\<close> or \<^verbatim>\<open>#\<close>; ends a segment at each \<^verbatim>\<open>/\<close> and each backslash; writes every
  character of the path percent-encode set (the C0 controls, the space,
  \<^verbatim>\<open>" # < > ? ^ ` { }\<close> and everything above \<^verbatim>\<open>~\<close>) as the \<^verbatim>\<open>%XX\<close> of its UTF-8 bytes; drops
  a segment \<^verbatim>\<open>.\<close> and, at a segment \<^verbatim>\<open>..\<close>, the segment before it (\<^verbatim>\<open>%2e\<close> in either case
  counts as a dot). A \<^verbatim>\<open>%\<close> is kept as it is. \<^verbatim>\<open>pathname\<close> is then each segment behind a
  slash.
\<close>

definition path_percent_encode_set :: "char \<Rightarrow> bool" where
  "path_percent_encode_set c \<longleftrightarrow>
     (of_char c :: nat) < 32 \<or> 126 < (of_char c :: nat) \<or>
     (of_char c :: nat) \<in> {32, 34, 35, 60, 62, 63, 94, 96, 123, 125}"

definition utf8_percent_encode :: "char \<Rightarrow> string" where
  "utf8_percent_encode c =
     (if path_percent_encode_set c
      then [CHR ''%'', hex_digit (of_char c div 16), hex_digit (of_char c mod 16)]
      else [c])"

text \<open>
  A single-dot segment is \<^verbatim>\<open>.\<close> or \<^verbatim>\<open>%2e\<close> in either case; a double-dot segment is two
  of them.
\<close>

definition single_dot_segment :: "string \<Rightarrow> bool" where
  "single_dot_segment buffer \<longleftrightarrow> buffer \<in> {''.'', ''%2e'', ''%2E''}"

definition double_dot_segment :: "string \<Rightarrow> bool" where
  "double_dot_segment buffer \<longleftrightarrow>
     buffer \<in> {''..'', ''.%2e'', ''.%2E'', ''%2e.'', ''%2E.'',
               ''%2e%2e'', ''%2e%2E'', ''%2E%2e'', ''%2E%2E''}"

text \<open>
  The end of a segment in the path state: \<open>slash\<close> tells whether the segment ended at a
  \<^verbatim>\<open>/\<close> or a backslash (and not at the end of the path). Shortening the path removes its
  last segment, if any.
\<close>

definition end_of_segment :: "string list \<Rightarrow> string \<Rightarrow> bool \<Rightarrow> string list" where
  "end_of_segment segments buffer slash =
     (if double_dot_segment buffer
      then (if slash then butlast segments else butlast segments @ [[]])
      else if single_dot_segment buffer
      then (if slash then segments else segments @ [[]])
      else segments @ [buffer])"

fun path_state :: "string list \<Rightarrow> string \<Rightarrow> string \<Rightarrow> string list" where
  "path_state segments buffer [] = end_of_segment segments buffer False"
| "path_state segments buffer (c # cs) =
     (if c = CHR ''/'' \<or> c = CHR 0x5C
      then path_state (end_of_segment segments buffer True) [] cs
      else if c = CHR ''?'' \<or> c = CHR ''#''
      then end_of_segment segments buffer False
      else path_state segments (buffer @ utf8_percent_encode c) cs)"

definition c0_control_or_space :: "char \<Rightarrow> bool" where
  "c0_control_or_space c \<longleftrightarrow> (of_char c :: nat) \<le> 32"

definition ascii_tab_or_newline :: "char \<Rightarrow> bool" where
  "ascii_tab_or_newline c \<longleftrightarrow> (of_char c :: nat) \<in> {9, 10, 13}"

text \<open>
  \<open>url_pathname input\<close> is the \<^verbatim>\<open>pathname\<close> of \<^verbatim>\<open>new URL(origin + input)\<close> for an
  \<^verbatim>\<open>https\<close> origin and an \<open>input\<close> that starts with a slash (where the host ends).
\<close>

definition url_pathname :: "string \<Rightarrow> string" where
  "url_pathname input =
     (let stripped = rev (dropWhile c0_control_or_space (rev input));
          s = filter (\<lambda>c. \<not> ascii_tab_or_newline c) stripped;
          rest = (case s of
                    [] \<Rightarrow> []
                  | c # cs \<Rightarrow> if c = CHR ''/'' \<or> c = CHR 0x5C then cs else s)
      in concat (map (\<lambda>segment. CHR ''/'' # segment) (path_state [] [] rest)))"

definition is_alnum :: "char \<Rightarrow> bool" where
  "is_alnum c \<longleftrightarrow> is_lower c \<or> is_upper c \<or> is_digit c"

text \<open>
  \<^verbatim>\<open>/^\d{1,3}\.\d{1,3}\.\d{1,3}\.\d{1,3}$/\<close>: no digit is a dot, so the pattern matches
  exactly the strings that split at their dots into four runs of one to three digits.
\<close>

definition ipv4_shaped :: "string \<Rightarrow> bool" where
  "ipv4_shaped d =
     (let parts = split_on CHR ''.'' d
      in length parts = 4 \<and>
         list_all (\<lambda>p. 1 \<le> length p \<and> length p \<le> 3 \<and> list_all is_digit p) parts)"

text \<open>
  \<^verbatim>\<open>/^(?:[a-z0-9](?:[a-z0-9-]{0,61}[a-z0-9])?\.)+[a-z0-9][a-z0-9-]{0,61}[a-z0-9]$/i\<close>: a label
  \<^verbatim>\<open>[a-z0-9](?:[a-z0-9-]{0,61}[a-z0-9])?\<close> is a string of 1 to 63 letters, digits and
  hyphens that starts and ends with a letter or digit; the last label has at least two
  characters; there is at least one label before the last. No label holds a dot, so the
  labels are the pieces between the dots.
\<close>

definition dns_label :: "nat \<Rightarrow> string \<Rightarrow> bool" where
  "dns_label shortest l =
     (case l of
        [] \<Rightarrow> False
      | c # _ \<Rightarrow> shortest \<le> length l \<and> length l \<le> 63 \<and> is_alnum c \<and> is_alnum (last l) \<and>
                 list_all (\<lambda>x. is_alnum x \<or> x = CHR ''-'') l)"

definition dns_shaped :: "string \<Rightarrow> bool" where
  "dns_shaped d =
     (let parts = split_on CHR ''.'' d
      in 2 \<le> length parts \<and> list_all (dns_label 1) (butlast parts) \<and> dns_label 2 (last parts))"

definition isValidDomain :: "string \<Rightarrow> bool" where
  "isValidDomain d = (if d = ''localhost'' \<or> ipv4_shaped d then True else dns_shaped d)"

definition searchParams_get :: "URL \<Rightarrow> string \<Rightarrow> string option" where
  "searchParams_get u name = map_of (searchParams u) name"

definition parseUrl :: "URL \<Rightarrow> error + ParsedUrl" where
  "parseUrl u =
     (case decodeURIComponent (pathname u) of
        None \<Rightarrow> Inl URIError
      | Some decodedPathname \<Rightarrow>
          let pathParts = split_on CHR ''/'' (dropWhile (\<lambda>c. c = CHR ''/'') decodedPathname) in
          if length pathParts < 2
          then Inl (Error ''Invalid URL format: /domain.com/path/to/image.jpg'')
          else
            let dom = hd pathParts;
                pth = ''/'' @ join ''/'' (tl pathParts) in
            if \<not> isValidDomain dom then Inl (Error (''Invalid domain: '' @ dom))
            else
              let encodedPath = join ''/'' (map encodeURIComponent (split_on CHR ''/'' pth))
              in Inr \<lparr> domain = dom,
                       path = pth,
                       sourceUrl = ''https://'' @ dom @ encodedPath,
                       cacheKey = dom @ pth,
                       forceReprocess = (searchParams_get u ''force'' = Some ''true'' \<or>
                                         searchParams_get u ''force'' = Some ''1''),
                       viewImage = (searchParams_get u ''view'' = Some ''true'' \<or>
                                    searchParams_get u ''view'' = Some ''1'') \<rparr>)"

text \<open>
  \<^verbatim>\<open>isAllowedOrigin\<close>. \<^verbatim>\<open>new URL(sourceUrl)\<close> is the platform's parser, a parameter:
  \<open>None\<close> when the constructor throws, which the \<^verbatim>\<open>catch\<close> turns into \<^verbatim>\<open>false\<close>.
\<close>

definition isAllowedOrigin :: "(string \<Rightarrow> URL option) \<Rightarrow> string \<Rightarrow> string \<Rightarrow> bool" where
  "isAllowedOrigin newURL srcUrl allowedOrigins =
     (if allowedOrigins = ''*'' then True
      else
        (case newURL srcUrl of
           None \<Rightarrow> False
         | Some url \<Rightarrow>
             let origins = map (\<lambda>entry. toLowerCase (trim entry)) (split_on CHR '','' allowedOrigins)
             in list_ex (\<lambda>origin.
                           if origin = ''*'' then True
                           else if startsWith origin ''*.''
                           then endsWith (hostname url) (drop 2 origin)
                           else hostname url = origin) origins))"

text \<open>
  A stand-in for the platform's parser in the examples: the URL of an
  \<^verbatim>\<open>https://host/path\<close> string, as \<^verbatim>\<open>parseUrl\<close> builds them, whose host is a plain
  ASCII name that does not end in a number (the platform reads a host that ends in a number
  as an IPv4 address and rewrites it).
\<close>

definition https_URL :: "string \<Rightarrow> URL option" where
  "https_URL s =
     (if startsWith s ''https://'' then
        let rest = drop 8 s;
            host = takeWhile (\<lambda>c. c \<noteq> CHR ''/'') rest;
            pth = dropWhile (\<lambda>c. c \<noteq> CHR ''/'') rest
        in if host = [] then None
           else Some \<lparr> href = ''https://'' @ toLowerCase host @ url_pathname pth,
                       hostname = toLowerCase host,
                       pathname = url_pathname pth, searchParams = [] \<rparr>
      else None)"

text \<open>
  The URL of a request to the worker for the path \<open>p\<close>, a path without a query.
\<close>

definition request_URL :: "string \<Rightarrow> URL" where
  "request_URL p =
     \<lparr> href = ''https://worker.example'' @ url_pathname p, hostname = ''worker.example'',
       pathname = url_pathname p, searchParams = [] \<rparr>"

text \<open>
  A string of bytes is the UTF-8 encoding of a string when \<^verbatim>\<open>decodeURIComponent\<close> accepts
  its bytes, all written as escapes.
\<close>

definition utf8_string :: "string \<Rightarrow> bool" where
  "utf8_string s = utf8_scan 0 [] (map (\<lambda>c. (True, of_char c)) s)"

text \<open>
  A pair of a domain and a path is well formed when the domain passes \<^verbatim>\<open>isValidDomain\<close>
  and the path is one that the URL parser and the percent-decoding give back: it is a
  string (well-formed UTF-8) that starts with a slash; it holds no \<^verbatim>\<open>%\<close>, \<^verbatim>\<open>?\<close>, \<^verbatim>\<open>#\<close>,
  backslash, tab, line feed or carriage return; it does not end with a space or a C0
  control; and none of its segments is \<^verbatim>\<open>.\<close> or \<^verbatim>\<open>..\<close>.
\<close>

definition path_char :: "char \<Rightarrow> bool" where
  "path_char c \<longleftrightarrow> (of_char c :: nat) \<notin> {37, 63, 35, 92, 9, 10, 13}"

definition dot_segment :: "string \<Rightarrow> bool" where
  "dot_segment segment \<longleftrightarrow> segment = ''.'' \<or> segment = ''..''"

definition well_formed :: "string \<Rightarrow> string \<Rightarrow> bool" where
  "well_formed dm pth \<longleftrightarrow>
     isValidDomain dm \<and> startsWith pth ''/'' \<and> utf8_string pth \<and>
     list_all path_char pth \<and> \<not> c0_control_or_space (last pth) \<and>
     \<not> list_ex dot_segment (split_on CHR ''/'' pth)"

definition domain_char :: "char \<Rightarrow> bool" where
  "domain_char c \<longleftrightarrow> is_alnum c \<or> c = CHR ''-'' \<or> c = CHR ''.''"

text \<open>
  A path with a space, a letter outside ASCII (\<^verbatim>\<open>U+00E9\<close>, in UTF-8 the bytes \<open>C3 A9\<close>) and
  a plus sign.
\<close>

definition example_path :: string where
  "example_path = ''/wp content/caf'' @ [CHR 0xC3, CHR 0xA9] @ ''+1.jpg''"

section \<open>Responses and the cache (utils.ts, cache.ts)\<close>

datatype jvalue = JString string | JNumber int | JBool bool

text \<open>
  A response body: none, the \<^verbatim>\<open>JSON.stringify\<close> of an object (its fields in order), a
  string, or bytes.
\<close>

datatype body = NoBody | JsonBody "(string \<times> jvalue) list" | Text string | Bytes string

record response =
  status :: nat
  headers :: "(string \<times> string) list"
  body :: body

definition getCORSHeaders :: "(string \<times> string) list" where
  "getCORSHeaders =
     [(''Access-Control-Allow-Origin'', ''*''),
      (''Access-Control-Allow-Methods'', ''GET, HEAD, DELETE, OPTIONS''),
      (''Access-Control-Allow-Headers'', ''Content-Type''),
      (''Access-Control-Max-Age'', ''86400'')]"

definition errorResponse :: "string \<Rightarrow> nat \<Rightarrow> response" where
  "errorResponse msg st =
     \<lparr> status = st,
       headers = (''Content-Type'', ''application/json'') # getCORSHeaders,
       body = JsonBody [(''error'', JString msg), (''status'', JNumber (int st))] \<rparr>"

text \<open>
  An object of the R2 bucket: its bytes, its ETag, its upload time (as
  \<^verbatim>\<open>uploaded.toUTCString()\<close> prints it), and the two pieces of metadata the worker reads,
  each \<open>None\<close> when the object has none. \<^verbatim>\<open>size\<close> is the length of the bytes. The
  bucket is a map from keys to objects; its operations are taken to succeed.
\<close>

record R2Object =
  r2_bytes :: string
  etag :: string
  uploaded :: string
  contentType :: "string option"
  cachedAt :: "string option"

record Env =
  R2 :: "string \<rightharpoonup> R2Object"
  ALLOWED_ORIGINS :: "string option"
  CDN_DOMAIN :: "string option"

text \<open>\<^verbatim>\<open>a || b\<close> on an optional string: \<open>b\<close> when \<open>a\<close> is missing or empty.\<close>

definition or_else :: "string option \<Rightarrow> string \<Rightarrow> string" where
  "or_else a b = (case a of None \<Rightarrow> b | Some s \<Rightarrow> if s = [] then b else s)"

definition getFromCache :: "Env \<Rightarrow> string \<Rightarrow> R2Object option" where
  "getFromCache env key = R2 env key"

definition getCacheHead :: "Env \<Rightarrow> string \<Rightarrow> R2Object option" where
  "getCacheHead env key = R2 env key"

definition deleteFromCache :: "Env \<Rightarrow> string \<Rightarrow> (string \<rightharpoonup> R2Object)" where
  "deleteFromCache env key = (R2 env)(key := None)"

definition handleHeadRequest :: "Env \<Rightarrow> string \<Rightarrow> response" where
  "handleHeadRequest env key =
     (case getCacheHead env key of
        Some cached \<Rightarrow>
          \<lparr> status = 200,
            headers =
              [(''Content-Type'', or_else (contentType cached) ''image/jpeg''),
               (''Content-Length'', toString (length (r2_bytes cached))),
               (''ETag'', etag cached),
               (''Last-Modified'', uploaded cached),
               (''Cache-Control'', ''public, max-age=31536000, immutable''),
               (''X-ImgPro-Status'', ''cached''),
               (''X-ImgPro-Cached-At'', or_else (cachedAt cached) [])] @ getCORSHeaders,
            body = NoBody \<rparr>
      | None \<Rightarrow> \<lparr> status = 404, headers = getCORSHeaders, body = NoBody \<rparr>)"

text \<open>
  A request, with the \<^verbatim>\<open>URL\<close> object that \<^verbatim>\<open>new URL(request.url)\<close> gives for it. Header
  names are looked up in lower case, as \<^verbatim>\<open>Headers.get\<close> ignores their case.
\<close>

record Request =
  req_method :: string
  req_url :: URL
  req_headers :: "string \<rightharpoonup> string"

definition handleConditionalRequest :: "Request \<Rightarrow> string \<Rightarrow> response option" where
  "handleConditionalRequest request tag =
     (case req_headers request ''if-none-match'' of
        None \<Rightarrow> None
      | Some ifNoneMatch \<Rightarrow>
          if ifNoneMatch \<noteq> [] \<and> ifNoneMatch = tag
          then Some \<lparr> status = 304,
                      headers = [(''ETag'', tag),
                                 (''Cache-Control'', ''public, max-age=31536000, immutable'')] @
                                getCORSHeaders,
                      body = NoBody \<rparr>
          else None)"

section \<open>The worker's request handler (index.ts)\<close>

text \<open>
  The collaborators the handler calls: the platform's URL parser and clock,
  \<^verbatim>\<open>createStatsResponse\<close> (analytics.ts) and \<^verbatim>\<open>createHtmlViewer\<close> (viewer.ts), all taken as
  parameters. The viewer's options are those that do not depend on timing or on the debug
  log.
\<close>

record HtmlViewerOptions =
  v_imageData :: string
  v_contentType :: string
  v_status :: string
  v_imageSize :: nat
  v_sourceUrl :: string
  v_cdnUrl :: string
  v_cacheKey :: string
  v_cachedAt :: "string option"

record platform =
  new_URL :: "string \<Rightarrow> URL option"
  now_ISOString :: string
  createStatsResponse :: "Env \<Rightarrow> response"
  createHtmlViewer :: "HtmlViewerOptions \<Rightarrow> response"

text \<open>
  The handler is followed from its entry to the cache lookup. What it does on a cache miss
  or a forced reprocess (fetching from the origin, validating, storing) is left as the
  outcome \<open>FetchOrigin\<close>.
\<close>

datatype reply = Reply response | FetchOrigin ParsedUrl

text \<open>
  \<^verbatim>\<open>error instanceof Error ? error.message : 'Unknown error'\<close>: both errors of
  \<^verbatim>\<open>parseUrl\<close> are \<^verbatim>\<open>Error\<close> objects, and so is the \<^verbatim>\<open>DOMException\<close> of \<^verbatim>\<open>atob\<close>;
  the messages of a \<^verbatim>\<open>URIError\<close> and of an \<^verbatim>\<open>InvalidCharacterError\<close> are the engine's.
\<close>

definition error_message :: "error \<Rightarrow> string" where
  "error_message e =
     (case e of
        Error m \<Rightarrow> m
      | URIError \<Rightarrow> ''URI malformed''
      | InvalidCharacterError \<Rightarrow> ''Invalid character'')"

definition health_response :: "platform \<Rightarrow> string \<Rightarrow> response" where
  "health_response P version =
     \<lparr> status = 200,
       headers = (''Content-Type'', ''application/json'') # getCORSHeaders,
       body = JsonBody [(''status'', JString ''healthy''), (''version'', JString version),
                        (''timestamp'', JString (now_ISOString P))] \<rparr>"

definition deleted_response :: "string \<Rightarrow> response" where
  "deleted_response key =
     \<lparr> status = 200,
       headers = (''Content-Type'', ''application/json'') # getCORSHeaders,
       body = JsonBody [(''success'', JBool True),
                        (''message'', JString ''Image deleted from cache''),
                        (''cacheKey'', JString key)] \<rparr>"

text \<open>Version 1.1.0: a hit is served from the bucket.\<close>

definition worker_fetch ::
  "platform \<Rightarrow> Request \<Rightarrow> Env \<Rightarrow> reply \<times> (string \<rightharpoonup> R2Object)" where
  "worker_fetch P request env =
     (let url = req_url request in
      if req_method request = ''OPTIONS''
      then (Reply \<lparr> status = 204, headers = getCORSHeaders, body = NoBody \<rparr>, R2 env)
      else if pathname url = ''/health'' \<or> pathname url = ''/ping''
      then (Reply (health_response P ''1.1.0''), R2 env)
      else if pathname url = ''/stats''
      then (Reply (createStatsResponse P env), R2 env)
      else
        (case parseUrl url of
           Inl err \<Rightarrow> (Reply (errorResponse (error_message err) 500), R2 env)
         | Inr parsed \<Rightarrow>
             if req_method request = ''DELETE'' then
               (case getFromCache env (cacheKey parsed) of
                  None \<Rightarrow> (Reply (errorResponse ''Image not found in cache'' 404), R2 env)
                | Some cached \<Rightarrow>
                    (Reply (deleted_response (cacheKey parsed)),
                     deleteFromCache env (cacheKey parsed)))
             else if req_method request = ''HEAD''
             then (Reply (handleHeadRequest env (cacheKey parsed)), R2 env)
             else if req_method request \<noteq> ''GET''
             then (Reply (errorResponse ''Method not allowed'' 405), R2 env)
             else
               let allowedOrigins = or_else (ALLOWED_ORIGINS env) ''*'' in
               if \<not> isAllowedOrigin (new_URL P) (sourceUrl parsed) allowedOrigins
               then (Reply (errorResponse ''Origin not allowed'' 403), R2 env)
               else
                 (case (if forceReprocess parsed then None
                        else getFromCache env (cacheKey parsed)) of
                    None \<Rightarrow> (FetchOrigin parsed, R2 env)
                  | Some cached \<Rightarrow>
                      (case handleConditionalRequest request (etag cached) of
                         Some conditionalResponse \<Rightarrow> (Reply conditionalResponse, R2 env)
                       | None \<Rightarrow>
                           let imageContentType = or_else (contentType cached) ''image/jpeg'' in
                           if viewImage parsed
                           then (Reply (createHtmlViewer P
                                   \<lparr> v_imageData = r2_bytes cached,
                                     v_contentType = imageContentType,
                                     v_status = ''cached'',
                                     v_imageSize = length (r2_bytes cached),
                                     v_sourceUrl = sourceUrl parsed,
                                     v_cdnUrl = hd (split_on CHR ''?'' (href url)),
                                     v_cacheKey = cacheKey parsed,
                                     v_cachedAt = cachedAt cached \<rparr>), R2 env)
                           else
                             (Reply \<lparr> status = 200,
                                      headers =
                                        [(''Content-Type'', imageContentType),
                                         (''Content-Length'', toString (length (r2_bytes cached))),
                                         (''Cache-Control'', ''public, max-age=31536000, immutable''),
                                         (''ETag'', etag cached),
                                         (''Last-Modified'', uploaded cached),
                                         (''X-ImgPro-Status'', ''hit''),
                                         (''X-ImgPro-Cached-At'', or_else (cachedAt cached) [])] @
                                        getCORSHeaders,
                                      body = Bytes (r2_bytes cached) \<rparr>, R2 env)))))"

text \<open>
  Version 1.0.4: the same up to the cache lookup; a hit is answered with a fixed body, the
  string \<^verbatim>\<open>atob('R0lGODlhAQABAIAAAAAAAP///yH5BAEAAAAALAAAAAABAAEAAAIBRAA7')\<close> (the source
  calls it a 1x1 transparent GIF), under the header \<^verbatim>\<open>Content-Length: 43\<close>.
\<close>

definition worker_fetch_1_0_4 ::
  "platform \<Rightarrow> Request \<Rightarrow> Env \<Rightarrow> reply \<times> (string \<rightharpoonup> R2Object)" where
  "worker_fetch_1_0_4 P request env =
     (let url = req_url request in
      if req_method request = ''OPTIONS''
      then (Reply \<lparr> status = 204, headers = getCORSHeaders, body = NoBody \<rparr>, R2 env)
      else if pathname url = ''/health'' \<or> pathname url = ''/ping''
      then (Reply (health_response P ''1.0.4''), R2 env)
      else if pathname url = ''/stats''
      then (Reply (createStatsResponse P env), R2 env)
      else
        (case parseUrl url of
           Inl err \<Rightarrow> (Reply (errorResponse (error_message err) 500), R2 env)
         | Inr parsed \<Rightarrow>
             if req_method request = ''DELETE'' then
               (case getFromCache env (cacheKey parsed) of
                  None \<Rightarrow> (Reply (errorResponse ''Image not found in cache'' 404), R2 env)
                | Some cached \<Rightarrow>
                    (Reply (deleted_response (cacheKey parsed)),
                     deleteFromCache env (cacheKey parsed)))
             else if req_method request = ''HEAD''
             then (Reply (handleHeadRequest env (cacheKey parsed)), R2 env)
             else if req_method request \<noteq> ''GET''
             then (Reply (errorResponse ''Method not allowed'' 405), R2 env)
             else
               let allowedOrigins = or_else (ALLOWED_ORIGINS env) ''*'' in
               if \<not> isAllowedOrigin (new_URL P) (sourceUrl parsed) allowedOrigins
               then (Reply (errorResponse ''Origin not allowed'' 403), R2 env)
               else
                 (case (if forceReprocess parsed then None
                        else getFromCache env (cacheKey parsed)) of
                    None \<Rightarrow> (FetchOrigin parsed, R2 env)
                  | Some cached \<Rightarrow>
                      let cdnDomain = or_else (CDN_DOMAIN env) ''cdn.yourdomain.com'';
                          encodedKey = join ''/'' (map encodeURIComponent
                                                     (split_on CHR ''/'' (cacheKey parsed)))
                      in
                      (case handleConditionalRequest request (etag cached) of
                         Some conditionalResponse \<Rightarrow> (Reply conditionalResponse, R2 env)
                       | None \<Rightarrow>
                           if viewImage parsed
                           then (Reply (createHtmlViewer P
                                   \<lparr> v_imageData = r2_bytes cached,
                                     v_contentType = or_else (contentType cached) ''image/jpeg'',
                                     v_status = ''cached'',
                                     v_imageSize = length (r2_bytes cached),
                                     v_sourceUrl = sourceUrl parsed,
                                     v_cdnUrl = ''https://'' @ cdnDomain @ ''/'' @ encodedKey,
                                     v_cacheKey = cacheKey parsed,
                                     v_cachedAt = cachedAt cached \<rparr>), R2 env)
                           else
                             (case atob ''R0lGODlhAQABAIAAAAAAAP///yH5BAEAAAAALAAAAAABAAEAAAIBRAA7'' of
                                None \<Rightarrow>
                                  (Reply (errorResponse (error_message InvalidCharacterError) 500),
                                   R2 env)
                              | Some gif \<Rightarrow>
                                  (Reply \<lparr> status = 200,
                                           headers =
                                             [(''Content-Type'', ''image/gif''),
                                              (''Cache-Control'', ''no-cache''),
                                              (''Content-Length'', ''43''),
                                              (''ETag'', etag cached),
                                              (''X-ImgPro-Status'', ''cached'')] @ getCORSHeaders,
                                           body = Text gif \<rparr>, R2 env))))))"

text \<open>Reading a reply, and the requests and environments of the examples.\<close>

definition reply_status :: "reply \<Rightarrow> nat option" where
  "reply_status r = (case r of Reply x \<Rightarrow> Some (status x) | FetchOrigin _ \<Rightarrow> None)"

definition header :: "response \<Rightarrow> string \<Rightarrow> string option" where
  "header r name = map_of (headers r) name"

definition example_platform :: platform where
  "example_platform =
     \<lparr> new_URL = https_URL, now_ISOString = ''2024-01-01T00:00:00.000Z'',
       createStatsResponse = (\<lambda>env. \<lparr> status = 200, headers = [], body = NoBody \<rparr>),
       createHtmlViewer = (\<lambda>opts. \<lparr> status = 200, headers = [], body = Text (v_cacheKey opts) \<rparr>) \<rparr>"

definition example_object :: R2Object where
  "example_object =
     \<lparr> r2_bytes = ''JFIF-bytes'', etag = ''abc123'', uploaded = ''Mon, 01 Jan 2024 00:00:00 GMT'',
       contentType = Some ''image/png'', cachedAt = Some ''2024-01-01T00:00:00.000Z'' \<rparr>"

definition example_Env :: Env where
  "example_Env =
     \<lparr> R2 = [''example.com/a.jpg'' \<mapsto> example_object], ALLOWED_ORIGINS = None, CDN_DOMAIN = None \<rparr>"

definition restricted_Env :: Env where
  "restricted_Env = example_Env\<lparr> ALLOWED_ORIGINS := Some ''cdn.example.org'' \<rparr>"

definition request_for :: "string \<Rightarrow> string \<Rightarrow> Request" where
  "request_for m p = \<lparr> req_method = m, req_url = request_URL p, req_headers = Map.empty \<rparr>"

section \<open>Origin responses (origin.ts)\<close>

text \<open>
  The response of the origin as the functions below read it: the status, the headers (names
  in lower case) and the outcome of \<^verbatim>\<open>arrayBuffer()\<close>: the bytes of the body, or the
  error it rejects with.
\<close>

record OriginResponse =
  res_status :: nat
  res_headers :: "string \<rightharpoonup> string"
  res_body :: "error + string"

datatype expected = ExpectImage

record block_check =
  blocked :: bool
  reason :: "string option"

definition detectBlockedResponse :: "OriginResponse \<Rightarrow> expected \<Rightarrow> block_check" where
  "detectBlockedResponse response expectedType =
     (let ctype = toLowerCase (or_else (res_headers response ''content-type'') []);
          contentLength = res_headers response ''content-length''
      in if res_status response = 403 \<or> res_status response = 401
         then \<lparr> blocked = True, reason = Some (''http_'' @ toString (res_status response)) \<rparr>
         else if res_status response = 429
         then \<lparr> blocked = True, reason = Some ''rate_limited'' \<rparr>
         else if expectedType = ExpectImage then
           if includes_str ctype ''text/html'' then
             if (case contentLength of
                   None \<Rightarrow> False
                 | Some cl \<Rightarrow> cl \<noteq> [] \<and>
                     (case parseInt cl (Some 10) of None \<Rightarrow> False | Some n \<Rightarrow> n < 50000))
             then \<lparr> blocked = True, reason = Some ''html_challenge_page'' \<rparr>
             else \<lparr> blocked = True, reason = Some ''html_instead_of_image'' \<rparr>
           else if startsWith ctype ''text/''
           then \<lparr> blocked = True, reason = Some ''text_instead_of_image'' \<rparr>
           else if includes_str ctype ''application/json''
           then \<lparr> blocked = True, reason = Some ''json_instead_of_image'' \<rparr>
           else if ctype \<noteq> [] \<and> \<not> startsWith ctype ''image/''
           then \<lparr> blocked = True, reason = Some ''non_image_content_type'' \<rparr>
           else \<lparr> blocked = False, reason = None \<rparr>
         else \<lparr> blocked = False, reason = None \<rparr>)"

text \<open>
  The decision tree as the specification words it, over the status, the lower-cased
  content type (empty when there is none) and the Content-Length as a number (\<open>None\<close>
  when the header is missing or is no number).
\<close>

definition content_type_of :: "OriginResponse \<Rightarrow> string" where
  "content_type_of response = toLowerCase (or_else (res_headers response ''content-type'') [])"

definition content_length_of :: "OriginResponse \<Rightarrow> int option" where
  "content_length_of response =
     (case res_headers response ''content-length'' of
        None \<Rightarrow> None
      | Some cl \<Rightarrow> parseInt cl (Some 10))"

definition is_blocked :: "string \<Rightarrow> block_check" where
  "is_blocked why = \<lparr> blocked = True, reason = Some why \<rparr>"

definition block_decision_tree :: "nat \<Rightarrow> string \<Rightarrow> int option \<Rightarrow> block_check" where
  "block_decision_tree st ctype clen =
     (if st = 401 then is_blocked ''http_401''
      else if st = 403 then is_blocked ''http_403''
      else if st = 429 then is_blocked ''rate_limited''
      else if includes_str ctype ''text/html'' \<and>
              (case clen of Some n \<Rightarrow> n < 50000 | None \<Rightarrow> False)
      then is_blocked ''html_challenge_page''
      else if includes_str ctype ''text/html'' then is_blocked ''html_instead_of_image''
      else if startsWith ctype ''text/'' then is_blocked ''text_instead_of_image''
      else if includes_str ctype ''application/json'' then is_blocked ''json_instead_of_image''
      else if ctype \<noteq> [] \<and> \<not> startsWith ctype ''image/''
      then is_blocked ''non_image_content_type''
      else \<lparr> blocked = False, reason = None \<rparr>)"

text \<open>
  \<^verbatim>\<open>fetchImageData\<close>. The thrown \<^verbatim>\<open>Error\<close> carries the message
  \<^verbatim>\<open>File too large: ${size} bytes (max ${maxSize} bytes)\<close>; an error of
  \<^verbatim>\<open>arrayBuffer()\<close> is passed on.
\<close>

definition show_int :: "int \<Rightarrow> string" where
  "show_int i = (if i < 0 then ''-'' @ toString (nat (- i)) else toString (nat i))"

definition file_too_large :: "int \<Rightarrow> int \<Rightarrow> error" where
  "file_too_large sz maxSize =
     Error (''File too large: '' @ show_int sz @ '' bytes (max '' @ show_int maxSize @ '' bytes)'')"

definition fetchImageData :: "OriginResponse \<Rightarrow> int \<Rightarrow> error + string" where
  "fetchImageData response maxSize =
     (let contentLength = res_headers response ''content-length'';
          too_long =
            (case contentLength of
               None \<Rightarrow> None
             | Some cl \<Rightarrow>
                 if cl = [] then None
                 else (case parseInt cl (Some 10) of
                         None \<Rightarrow> None
                       | Some sz \<Rightarrow> if sz > maxSize then Some sz else None))
      in case too_long of
           Some sz \<Rightarrow> Inl (file_too_large sz maxSize)
         | None \<Rightarrow>
             (case res_body response of
                Inl err \<Rightarrow> Inl err
              | Inr imageData \<Rightarrow>
                  if int (length imageData) > maxSize
                  then Inl (file_too_large (int (length imageData)) maxSize)
                  else Inr imageData))"

text \<open>
  The older \<^verbatim>\<open>fetchImageData\<close> (src/origin.ts) calls \<^verbatim>\<open>parseInt\<close> without a radix and
  compares the result, \<^verbatim>\<open>NaN\<close> included, with the limit; \<^verbatim>\<open>NaN > maxSize\<close> is false.
\<close>

definition fetchImageData_legacy :: "OriginResponse \<Rightarrow> int \<Rightarrow> error + string" where
  "fetchImageData_legacy response maxSize =
     (let contentLength = res_headers response ''content-length'';
          too_long =
            (case contentLength of
               None \<Rightarrow> None
             | Some cl \<Rightarrow>
                 if cl = [] then None
                 else (case parseInt cl None of
                         None \<Rightarrow> None
                       | Some sz \<Rightarrow> if sz > maxSize then Some sz else None))
      in case too_long of
           Some sz \<Rightarrow> Inl (file_too_large sz maxSize)
         | None \<Rightarrow>
             (case res_body response of
                Inl err \<Rightarrow> Inl err
              | Inr imageData \<Rightarrow>
                  if int (length imageData) > maxSize
                  then Inl (file_too_large (int (length imageData)) maxSize)
                  else Inr imageData))"

definition content_length_legacy :: "OriginResponse \<Rightarrow> int option" where
  "content_length_legacy response =
     (case res_headers response ''content-length'' of
        None \<Rightarrow> None
      | Some cl \<Rightarrow> parseInt cl None)"

text \<open>The responses of the examples.\<close>

definition html_response :: OriginResponse where
  "html_response =
     \<lparr> res_status = 200,
       res_headers = [''content-type'' \<mapsto> ''Text/HTML; charset=utf-8'', ''content-length'' \<mapsto> ''2000''],
       res_body = Inr (replicate 2000 CHR ''x'') \<rparr>"

definition understated_response :: OriginResponse where
  "understated_response =
     \<lparr> res_status = 200,
       res_headers = [''content-type'' \<mapsto> ''image/png'', ''content-length'' \<mapsto> ''5''],
       res_body = Inr ''twelve bytes'' \<rparr>"

section \<open>Per-site usage tracker (\<^verbatim>\<open>SiteUsageTracker\<close>, src/utils.ts)\<close>

text \<open>
  The durable object keeps its counters twice: in memory (the private fields of the class)
  and in \<^verbatim>\<open>state.storage\<close>, a key-value store that outlives the instance. Counters are
  JavaScript numbers holding integers; they are modelled as \<open>int\<close> (exact for the values
  below \<open>2^53\<close> that a counter incremented by one can reach).
\<close>

record usage_metrics =
  m_siteId :: int
  m_domain :: string
  cacheHit :: bool

datatype stored = Num int | Str string

type_synonym storage = "string \<rightharpoonup> stored"

abbreviation SITE_ID :: string where "SITE_ID \<equiv> ''siteId''"
abbreviation DOMAIN :: string where "DOMAIN \<equiv> ''domain''"
abbreviation REQUESTS :: string where "REQUESTS \<equiv> ''requests''"
abbreviation CACHE_HITS :: string where "CACHE_HITS \<equiv> ''cacheHits''"
abbreviation CACHE_MISSES :: string where "CACHE_MISSES \<equiv> ''cacheMisses''"
abbreviation D1_FAILURES :: string where "D1_FAILURES \<equiv> ''d1Failures''"

definition D1_FAILURE_ALERT_THRESHOLD :: int where
  "D1_FAILURE_ALERT_THRESHOLD = 5"

text \<open>
  The object: the in-memory fields, the key-value storage and the pending alarm
  (\<^verbatim>\<open>state.storage.getAlarm()\<close>, \<open>None\<close> when no alarm is scheduled), in milliseconds.
\<close>

record tracker =
  siteId :: int
  domain :: string
  requests :: int
  cacheHits :: int
  cacheMisses :: int
  d1Failures :: int
  initialized :: bool
  storage :: storage
  alarmTime :: "int option"

text \<open>
  What a handler does to the outside, in order: storage calls, the D1 batch and the console
  messages. A call is recorded when it is issued, whether or not it then succeeds.
\<close>

datatype message =
    FetchError
  | BillingDbNotBound
  | IdleRescheduleFailed
  | Flushed string int int int
  | StorageFailedAfterD1 string int
  | D1WriteFailed string int int
  | Alert int int string int
  | StorageErrorTrackingFailure string
  | RescheduleFailed string

record d1_batch =
  b_siteId :: int
  b_now :: int
  b_hourStart :: int
  b_requests :: int
  b_cacheHits :: int
  b_cacheMisses :: int

datatype call =
    Put "(string \<times> stored) list"
  | SetAlarm int
  | DeleteAll
  | DeleteAlarm
  | Batch d1_batch
  | Console message

fun put_entries :: "(string \<times> stored) list \<Rightarrow> storage \<Rightarrow> storage" where
  "put_entries [] st = st"
| "put_entries ((k, v) # kvs) st = put_entries kvs (st(k \<mapsto> v))"

text \<open>
  \<^verbatim>\<open>(stored.get(KEY) as number) || 0\<close> and \<^verbatim>\<open>(stored.get(KEY) as string) || ''\<close>: a missing key
  reads as the default. The handlers only ever write numbers under the numeric keys.
\<close>

definition stored_num :: "storage \<Rightarrow> string \<Rightarrow> int" where
  "stored_num st k = (case st k of Some (Num n) \<Rightarrow> n | _ \<Rightarrow> 0)"

definition stored_str :: "storage \<Rightarrow> string \<Rightarrow> string" where
  "stored_str st k = (case st k of Some (Str s) \<Rightarrow> s | _ \<Rightarrow> [])"

definition loadFromStorage :: "tracker \<Rightarrow> tracker" where
  "loadFromStorage s =
     (let st = storage s;
          sid = stored_num st SITE_ID;
          dom = stored_str st DOMAIN
      in s\<lparr> siteId := sid, domain := dom,
            requests := stored_num st REQUESTS,
            cacheHits := stored_num st CACHE_HITS,
            cacheMisses := stored_num st CACHE_MISSES,
            d1Failures := stored_num st D1_FAILURES,
            initialized := (sid \<noteq> 0 \<or> dom \<noteq> []) \<rparr>)"

text \<open>
  What \<^verbatim>\<open>await request.json()\<close> gives: it rejects (the body is no JSON), or it resolves
  to \<^verbatim>\<open>null\<close>, or to a value whose fields \<^verbatim>\<open>siteId\<close>, \<^verbatim>\<open>domain\<close> (taken with their
  declared types) and \<^verbatim>\<open>cacheHit\<close> (read by its truthiness) the handler can read. Reading
  a field of \<^verbatim>\<open>null\<close> throws a \<^verbatim>\<open>TypeError\<close>.
\<close>

datatype payload = Rejects | Null | Metrics usage_metrics

text \<open>
  \<^verbatim>\<open>fetch(request)\<close>: the record-event handler. \<open>put_ok\<close> tells whether
  \<^verbatim>\<open>state.storage.put\<close> succeeds. The result is the HTTP status, the object afterwards and
  the calls issued. Every exception ends in the \<^verbatim>\<open>catch\<close>, which answers 500 and rolls
  nothing back: on \<^verbatim>\<open>null\<close> the first event has set \<^verbatim>\<open>initialized\<close> when
  \<^verbatim>\<open>metrics.siteId\<close> throws, and a later event has incremented \<^verbatim>\<open>requests\<close> when
  \<^verbatim>\<open>metrics.cacheHit\<close> throws.
\<close>

definition tracker_fetch ::
  "payload \<Rightarrow> bool \<Rightarrow> tracker \<Rightarrow> nat \<times> tracker \<times> call list" where
  "tracker_fetch payload put_ok s =
     (case payload of
        Rejects \<Rightarrow> (500, s, [Console FetchError])
      | Null \<Rightarrow>
          if \<not> initialized s
          then (500, s\<lparr> initialized := True \<rparr>, [Console FetchError])
          else (500, s\<lparr> requests := requests s + 1 \<rparr>, [Console FetchError])
      | Metrics metrics \<Rightarrow>
          let first = \<not> initialized s;
              s1 = (if first
                    then s\<lparr> initialized := True, siteId := m_siteId metrics,
                            domain := m_domain metrics \<rparr>
                    else s);
              updates0 = (if first
                          then [(SITE_ID, Num (m_siteId metrics)), (DOMAIN, Str (m_domain metrics))]
                          else []);
              s2 = s1\<lparr> requests := requests s1 + 1 \<rparr>;
              s3 = (if cacheHit metrics
                    then s2\<lparr> cacheHits := cacheHits s2 + 1 \<rparr>
                    else s2\<lparr> cacheMisses := cacheMisses s2 + 1 \<rparr>);
              updates = updates0 @
                        [(REQUESTS, Num (requests s3)),
                         (CACHE_HITS, Num (cacheHits s3)),
                         (CACHE_MISSES, Num (cacheMisses s3))]
          in if put_ok
             then (200, s3\<lparr> storage := put_entries updates (storage s3) \<rparr>, [Put updates])
             else (500, s3, [Put updates, Console FetchError]))"

text \<open>
  Record-events handled one after another: each is a payload with the outcome of its
  storage write. The object serialises its handlers, so the events that arrive while the
  alarm handler awaits the D1 batch run, whole, during that await.
\<close>

fun record_events :: "(payload \<times> bool) list \<Rightarrow> tracker \<Rightarrow> tracker" where
  "record_events [] s = s"
| "record_events ((payload, put_ok) # evs) s =
     record_events evs (fst (snd (tracker_fetch payload put_ok s)))"

text \<open>
  The environment of one run of \<^verbatim>\<open>alarm()\<close>: whether \<^verbatim>\<open>env.BILLING_DB\<close> is bound, the
  three readings of \<^verbatim>\<open>Date.now()\<close> (on entry, for the hour bucket, when rescheduling), the
  outcome of each awaited call, and the record-events that interleave with the D1 batch.
\<close>

record alarm_env =
  billing_db :: bool
  now_entry :: int
  now_hour :: int
  now_alarm :: int
  deleteAll_ok :: bool
  deleteAlarm_ok :: bool
  batch_ok :: bool
  during_batch :: "(payload \<times> bool) list"
  put_ok :: bool
  setAlarm_ok :: bool

datatype completion = Returned | Threw

text \<open>The \<^verbatim>\<open>finally\<close> block (and the idle branch): \<^verbatim>\<open>setAlarm(Date.now() + 60000)\<close>.\<close>

definition reschedule ::
  "alarm_env \<Rightarrow> message \<Rightarrow> tracker \<times> call list \<Rightarrow> tracker \<times> call list" where
  "reschedule e on_error r =
     (case r of (s, cs) \<Rightarrow>
        if setAlarm_ok e
        then (s\<lparr> alarmTime := Some (now_alarm e + 60000) \<rparr>, cs @ [SetAlarm (now_alarm e + 60000)])
        else (s, cs @ [SetAlarm (now_alarm e + 60000), Console on_error]))"

definition alarm :: "alarm_env \<Rightarrow> tracker \<Rightarrow> completion \<times> tracker \<times> call list" where
  "alarm e s =
     (if \<not> billing_db e then
        let s1 = s\<lparr> requests := 0, cacheHits := 0, cacheMisses := 0 \<rparr> in
        if \<not> deleteAll_ok e then (Threw, s1, [Console BillingDbNotBound, DeleteAll])
        else
          let s2 = s1\<lparr> storage := Map.empty \<rparr> in
          if \<not> deleteAlarm_ok e
          then (Threw, s2, [Console BillingDbNotBound, DeleteAll, DeleteAlarm])
          else (Returned, s2\<lparr> alarmTime := None \<rparr>,
                [Console BillingDbNotBound, DeleteAll, DeleteAlarm])
      else
        let now = now_entry e div 1000 in
        if requests s = 0 then
          (case reschedule e IdleRescheduleFailed (s, []) of (s', cs) \<Rightarrow> (Returned, s', cs))
        else
          let hourStart = (now_hour e div 3600000) * 3600;
              flushRequests = requests s;
              flushCacheHits = cacheHits s;
              flushCacheMisses = cacheMisses s;
              flushSiteId = siteId s;
              flushDomain = domain s;
              batch = Batch \<lparr> b_siteId = flushSiteId, b_now = now, b_hourStart = hourStart,
                              b_requests = flushRequests, b_cacheHits = flushCacheHits,
                              b_cacheMisses = flushCacheMisses \<rparr>;
              s1 = record_events (during_batch e) s;
              tried =
                (if batch_ok e then
                   let s2 = s1\<lparr> requests := requests s1 - flushRequests,
                                 cacheHits := cacheHits s1 - flushCacheHits,
                                 cacheMisses := cacheMisses s1 - flushCacheMisses,
                                 d1Failures := 0 \<rparr>;
                       kvs = [(REQUESTS, Num (requests s2)),
                              (CACHE_HITS, Num (cacheHits s2)),
                              (CACHE_MISSES, Num (cacheMisses s2)),
                              (D1_FAILURES, Num 0)];
                       cs = [batch,
                             Console (Flushed flushDomain flushRequests flushCacheHits flushCacheMisses),
                             Put kvs]
                   in if put_ok e
                      then (s2\<lparr> storage := put_entries kvs (storage s2) \<rparr>, cs)
                      else (s2, cs @ [Console (StorageFailedAfterD1 flushDomain flushRequests)])
                 else
                   let s2 = s1\<lparr> d1Failures := d1Failures s1 + 1 \<rparr>;
                       kvs = [(D1_FAILURES, Num (d1Failures s2))];
                       cs = [batch, Put kvs]
                   in if put_ok e
                      then (s2\<lparr> storage := put_entries kvs (storage s2) \<rparr>,
                            cs @ [Console (D1WriteFailed flushDomain (d1Failures s2) (requests s2))] @
                            (if d1Failures s2 \<ge> D1_FAILURE_ALERT_THRESHOLD
                             then [Console (Alert (d1Failures s2) flushSiteId flushDomain (requests s2))]
                             else []))
                      else (s2, cs @ [Console (StorageErrorTrackingFailure flushDomain)]))
          in (case reschedule e (RescheduleFailed flushDomain) tried of
                (s', cs) \<Rightarrow> (Returned, s', cs)))"

definition state_of :: "'a \<times> tracker \<times> call list \<Rightarrow> tracker" where
  "state_of r = fst (snd r)"

definition calls_of :: "'a \<times> tracker \<times> call list \<Rightarrow> call list" where
  "calls_of r = snd (snd r)"

text \<open>
  The invariant of the counters, for the in-memory fields and for what
  \<^verbatim>\<open>loadFromStorage\<close> would read back.
\<close>

definition counters_ok :: "int \<Rightarrow> int \<Rightarrow> int \<Rightarrow> int \<Rightarrow> bool" where
  "counters_ok r h m f \<longleftrightarrow> 0 \<le> r \<and> 0 \<le> h \<and> 0 \<le> m \<and> 0 \<le> f \<and> r = h + m"

definition usage_inv :: "tracker \<Rightarrow> bool" where
  "usage_inv s \<longleftrightarrow>
     counters_ok (requests s) (cacheHits s) (cacheMisses s) (d1Failures s) \<and>
     counters_ok (stored_num (storage s) REQUESTS) (stored_num (storage s) CACHE_HITS)
       (stored_num (storage s) CACHE_MISSES) (stored_num (storage s) D1_FAILURES)"

text \<open>
  The states an object can be in: it starts with the field initialisers of the class over
  an empty storage, and then handles record-events, alarms and reloads in any order.
\<close>

definition fresh_tracker :: tracker where
  "fresh_tracker =
     \<lparr> siteId = 0, domain = [], requests = 0, cacheHits = 0, cacheMisses = 0, d1Failures = 0,
       initialized = False, storage = Map.empty, alarmTime = None \<rparr>"

inductive reachable :: "tracker \<Rightarrow> bool" where
  start: "reachable fresh_tracker"
| event: "reachable s \<Longrightarrow> reachable (state_of (tracker_fetch payload ok s))"
| flush: "reachable s \<Longrightarrow> reachable (state_of (alarm e s))"
| reload: "reachable s \<Longrightarrow> reachable (loadFromStorage s)"

text \<open>
  How many of a run of record-events were counted, in total and as hits and misses. A
  \<^verbatim>\<open>null\<close> body counts as a request, and as neither hit nor miss, once the object is
  initialized; \<open>init\<close> is the flag before the run.
\<close>

fun recorded :: "bool \<Rightarrow> (payload \<times> bool) list \<Rightarrow> int" where
  "recorded init [] = 0"
| "recorded init ((Rejects, ok) # evs) = recorded init evs"
| "recorded init ((Null, ok) # evs) = (if init then 1 else 0) + recorded True evs"
| "recorded init ((Metrics m, ok) # evs) = 1 + recorded True evs"

fun recorded_hits :: "(payload \<times> bool) list \<Rightarrow> int" where
  "recorded_hits [] = 0"
| "recorded_hits ((Metrics m, ok) # evs) = (if cacheHit m then 1 else 0) + recorded_hits evs"
| "recorded_hits (ev # evs) = recorded_hits evs"

fun recorded_misses :: "(payload \<times> bool) list \<Rightarrow> int" where
  "recorded_misses [] = 0"
| "recorded_misses ((Metrics m, ok) # evs) = (if cacheHit m then 0 else 1) + recorded_misses evs"
| "recorded_misses (ev # evs) = recorded_misses evs"

text \<open>No event of the run has the body \<^verbatim>\<open>null\<close>.\<close>

definition no_null :: "(payload \<times> bool) list \<Rightarrow> bool" where
  "no_null evs = list_all (\<lambda>ev. fst ev \<noteq> Null) evs"

text \<open>The states the object reaches when no record-event has the body \<^verbatim>\<open>null\<close>.\<close>

inductive reachable_typed :: "tracker \<Rightarrow> bool" where
  start: "reachable_typed fresh_tracker"
| event: "reachable_typed s \<Longrightarrow> payload \<noteq> Null \<Longrightarrow>
          reachable_typed (state_of (tracker_fetch payload ok s))"
| flush: "reachable_typed s \<Longrightarrow> no_null (during_batch e) \<Longrightarrow>
          reachable_typed (state_of (alarm e s))"
| reload: "reachable_typed s \<Longrightarrow> reachable_typed (loadFromStorage s)"

text \<open>
  What is left of the invariant when \<^verbatim>\<open>null\<close> bodies arrive: the counters are
  non-negative and the hits and misses together do not exceed the requests.
\<close>

definition counters_bounded :: "int \<Rightarrow> int \<Rightarrow> int \<Rightarrow> int \<Rightarrow> bool" where
  "counters_bounded r h m f \<longleftrightarrow> 0 \<le> h \<and> 0 \<le> m \<and> 0 \<le> f \<and> h + m \<le> r"

definition usage_bound :: "tracker \<Rightarrow> bool" where
  "usage_bound s \<longleftrightarrow>
     counters_bounded (requests s) (cacheHits s) (cacheMisses s) (d1Failures s) \<and>
     counters_bounded (stored_num (storage s) REQUESTS) (stored_num (storage s) CACHE_HITS)
       (stored_num (storage s) CACHE_MISSES) (stored_num (storage s) D1_FAILURES)"


definition is_setAlarm :: "call \<Rightarrow> bool" where
  "is_setAlarm c = (case c of SetAlarm _ \<Rightarrow> True | _ \<Rightarrow> False)"

text \<open>Concrete objects and runs used in the examples below.\<close>

definition example_tracker :: tracker where
  "example_tracker =
     \<lparr> siteId = 7, domain = ''example.com'', requests = 3, cacheHits = 2, cacheMisses = 1,
       d1Failures = 4, initialized = True,
       storage = [SITE_ID \<mapsto> Num 7, DOMAIN \<mapsto> Str ''example.com'', REQUESTS \<mapsto> Num 3,
                  CACHE_HITS \<mapsto> Num 2, CACHE_MISSES \<mapsto> Num 1, D1_FAILURES \<mapsto> Num 4],
       alarmTime = None \<rparr>"

definition example_event :: "payload \<times> bool" where
  "example_event = (Metrics \<lparr> m_siteId = 7, m_domain = ''example.com'', cacheHit = True \<rparr>, True)"

definition example_alarm_env :: alarm_env where
  "example_alarm_env =
     \<lparr> billing_db = True, now_entry = 7200000, now_hour = 7200001, now_alarm = 7200500,
       deleteAll_ok = True, deleteAlarm_ok = True, batch_ok = True,
       during_batch = [example_event], put_ok = True, setAlarm_ok = True \<rparr>"


definition broken_alarm_env :: alarm_env where
  "broken_alarm_env = example_alarm_env\<lparr> batch_ok := False, put_ok := False \<rparr>"

definition unbound_alarm_env :: alarm_env where
  "unbound_alarm_env = example_alarm_env\<lparr> billing_db := False \<rparr>"

section \<open>Properties of URL parsing and validation\<close>

subsection \<open>Splitting, joining and decoding\<close>

lemma split_on_not_Nil: "split_on c s \<noteq> []"
  by (induction s) (auto split: list.splits)

lemma join_split_on: "join [c] (split_on c s) = s"
proof (induction s)
  case Nil show ?case by simp
next
  case (Cons x xs)
  obtain w ws where sp: "split_on c xs = w # ws"
    using split_on_not_Nil[of c xs] by (cases "split_on c xs") auto
  show ?case using Cons sp by (cases ws) auto
qed

lemma split_on_append_sep:
  "c \<notin> set d \<Longrightarrow> split_on c (d @ c # rest) = d # split_on c rest"
  by (induction d) auto

lemma split_on_no_sep: "c \<notin> set s \<Longrightarrow> split_on c s = [s]"
  by (induction s) auto

lemma set_split_on: "set s \<subseteq> (\<Union>w\<in>set (split_on c s). set w) \<union> {c}"
proof (induction s)
  case Nil show ?case by simp
next
  case (Cons x xs)
  obtain w ws where sp: "split_on c xs = w # ws"
    using split_on_not_Nil[of c xs] by (cases "split_on c xs") auto
  show ?case using Cons sp by auto
qed

lemma unescape_no_percent:
  "CHR ''%'' \<notin> set s \<Longrightarrow> unescape s = Some (map (\<lambda>c. (False, of_char c)) s)"
  by (induction s) auto

lemma utf8_scan_literals: "utf8_scan 0 acc (map (\<lambda>c. (False, f c)) s)"
  by (induction s arbitrary: acc) auto

lemma decodeURIComponent_no_percent:
  "CHR ''%'' \<notin> set s \<Longrightarrow> decodeURIComponent s = Some s"
  by (simp add: decodeURIComponent_def unescape_no_percent utf8_scan_literals comp_def)

subsection \<open>Valid domains\<close>

lemma digit_alnum: "is_digit c \<Longrightarrow> is_alnum c" by (simp add: is_alnum_def)

lemma dns_label_chars: "dns_label n l \<Longrightarrow> x \<in> set l \<Longrightarrow> domain_char x"
  by (auto simp: dns_label_def domain_char_def list_all_iff split: list.splits)

lemma isValidDomain_chars:
  assumes "isValidDomain d" and "x \<in> set d"
  shows "domain_char x"
proof -
  consider "d = ''localhost''" | "ipv4_shaped d" | "dns_shaped d"
    using assms(1) by (auto simp: isValidDomain_def split: if_splits)
  then show ?thesis
  proof cases
    case 1
    then have "x \<in> set ''localhost''" using assms(2) by simp
    then show ?thesis by (auto simp: domain_char_def is_alnum_def is_lower_def)
  next
    case 2
    from set_split_on[of d "CHR ''.''"] assms(2)
    consider "x = CHR ''.''" | w where "w \<in> set (split_on CHR ''.'' d)" "x \<in> set w" by auto
    then show ?thesis
    proof cases
      case 1 then show ?thesis by (simp add: domain_char_def)
    next
      case 2
      with \<open>ipv4_shaped d\<close> have "is_digit x"
        by (auto simp: ipv4_shaped_def Let_def list_all_iff)
      then show ?thesis by (simp add: domain_char_def digit_alnum)
    qed
  next
    case 3
    let ?ps = "split_on CHR ''.'' d"
    have ps: "?ps = butlast ?ps @ [last ?ps]" using split_on_not_Nil by simp
    from set_split_on[of d "CHR ''.''"] assms(2)
    consider "x = CHR ''.''" | w where "w \<in> set ?ps" "x \<in> set w" by auto
    then show ?thesis
    proof cases
      case 1 then show ?thesis by (simp add: domain_char_def)
    next
      case 2
      then have "w \<in> set (butlast ?ps) \<or> w = last ?ps"
        by (metis ps Un_iff set_append list.set_intros(1) set_ConsD empty_iff empty_set)
      with 3 have "\<exists>n. dns_label n w"
        by (auto simp: dns_shaped_def Let_def list_all_iff)
      with 2 show ?thesis using dns_label_chars by blast
    qed
  qed
qed

lemma isValidDomain_not_Nil: "isValidDomain d \<Longrightarrow> d \<noteq> []"
  by (auto simp: isValidDomain_def ipv4_shaped_def dns_shaped_def Let_def split: if_splits)

lemma domain_char_plain: "domain_char x \<Longrightarrow> x \<noteq> CHR ''/'' \<and> x \<noteq> CHR ''%''"
  by (auto simp: domain_char_def is_alnum_def is_lower_def is_upper_def is_digit_def)

lemma isValidDomain_plain:
  assumes "isValidDomain d"
  shows "CHR ''/'' \<notin> set d" and "CHR ''%'' \<notin> set d" and "d \<noteq> []" and "hd d \<noteq> CHR ''/''"
proof -
  show a: "CHR ''/'' \<notin> set d" using isValidDomain_chars[OF assms] domain_char_plain by blast
  show "CHR ''%'' \<notin> set d" using isValidDomain_chars[OF assms] domain_char_plain by blast
  show b: "d \<noteq> []" using assms by (rule isValidDomain_not_Nil)
  show "hd d \<noteq> CHR ''/''" using a b by (cases d) auto
qed

lemma example_domains:
  "isValidDomain ''example.com''" "\<not> isValidDomain ''exa_mple.com''"
  by code_simp+

subsection \<open>Decoding what the URL parser encoded\<close>

text \<open>
  \<^verbatim>\<open>decodeURIComponent\<close> gives back a string that holds no \<^verbatim>\<open>%\<close> from its
  percent-encoding by the URL parser, whatever characters the parser chose to escape.
\<close>

lemma of_char_less_256: "(of_char c :: nat) < 256"
proof -
  have "(of_char c :: nat) mod 256 = of_char c" by (rule of_char_mod_256)
  then show ?thesis by (metis mod_less_divisor zero_less_numeral)
qed

lemma hex_val_hex_digit: "d < 16 \<Longrightarrow> hex_val (hex_digit d) = Some d"
  by (auto simp: hex_val_def hex_digit_def digit_val_def is_digit_def is_lower_def is_upper_def)

lemma unescape_utf8_percent_encode:
  assumes "c \<noteq> CHR ''%''"
  shows "unescape (utf8_percent_encode c @ rest) =
           map_option (Cons (path_percent_encode_set c, of_char c)) (unescape rest)"
proof (cases "path_percent_encode_set c")
  case True
  have lt: "(of_char c :: nat) div 16 < 16" "(of_char c :: nat) mod 16 < 16"
    using of_char_less_256[of c] by arith+
  have v: "16 * ((of_char c :: nat) div 16) + of_char c mod 16 = of_char c" by simp
  show ?thesis
    using True v by (simp add: utf8_percent_encode_def hex_val_hex_digit[OF lt(1)] hex_val_hex_digit[OF lt(2)])
next
  case False
  with assms show ?thesis by (simp add: utf8_percent_encode_def)
qed

lemma unescape_percent_encoded:
  "CHR ''%'' \<notin> set s \<Longrightarrow>
   unescape (concat (map utf8_percent_encode s)) =
     Some (map (\<lambda>c. (path_percent_encode_set c, of_char c)) s)"
proof (induction s)
  case Nil show ?case by simp
next
  case (Cons x xs)
  then have "x \<noteq> CHR ''%''" and "CHR ''%'' \<notin> set xs" by auto
  then show ?case using Cons.IH by (simp add: unescape_utf8_percent_encode)
qed

lemma utf8_scan_flags:
  "\<forall>c \<in> set s. 128 \<le> (of_char c :: nat) \<longrightarrow> f c \<Longrightarrow>
   utf8_scan k acc (map (\<lambda>c. (f c, of_char c)) s) = utf8_scan k acc (map (\<lambda>c. (True, of_char c)) s)"
proof (induction s arbitrary: k acc)
  case Nil show ?case by simp
next
  case (Cons x xs)
  then have ih: "\<And>k acc. utf8_scan k acc (map (\<lambda>c. (f c, of_char c)) xs) =
                    utf8_scan k acc (map (\<lambda>c. (True, of_char c)) xs)"
    by simp
  from Cons.prems have fx: "128 \<le> (of_char x :: nat) \<Longrightarrow> f x" by simp
  show ?case
  proof (cases k)
    case 0
    then show ?thesis using fx ih by auto
  next
    case (Suc j)
    then show ?thesis using fx ih by auto
  qed
qed

lemma decodeURIComponent_percent_encoded:
  assumes "CHR ''%'' \<notin> set s" and "utf8_string s"
  shows "decodeURIComponent (concat (map utf8_percent_encode s)) = Some s"
proof -
  have "utf8_scan 0 [] (map (\<lambda>c. (path_percent_encode_set c, of_char c)) s)"
    using assms(2) utf8_scan_flags[of s path_percent_encode_set 0 "[]"]
    by (simp add: utf8_string_def path_percent_encode_set_def)
  then show ?thesis
    by (simp add: decodeURIComponent_def unescape_percent_encoded[OF assms(1)] comp_def)
qed

lemma utf8_string_ascii_prefix:
  "\<forall>c \<in> set a. (of_char c :: nat) < 128 \<Longrightarrow> utf8_string (a @ b) = utf8_string b"
  by (induction a) (simp_all add: utf8_string_def)

subsection \<open>The pathname of a path without dot segments\<close>

text \<open>
  The encoding of a segment is a dot segment only when the segment itself is one. So a path
  that is cut nowhere (no \<^verbatim>\<open>?\<close>, \<^verbatim>\<open>#\<close>, backslash, tab or newline, no trailing space) and has
  no dot segment comes out of the URL parser as its percent-encoding, character by
  character.
\<close>

lemma of_char_dot: "(of_char c :: nat) = 46 \<Longrightarrow> c = CHR ''.''"
proof -
  assume "(of_char c :: nat) = 46"
  then have "(of_char c :: nat) = of_char (CHR ''.'')" by simp
  then show ?thesis by (simp only: of_char_eq_iff)
qed

lemma unescape_dots:
  "unescape ''.'' = Some [(False, 46)]"
  "unescape ''%2e'' = Some [(True, 46)]"
  "unescape ''%2E'' = Some [(True, 46)]"
  "unescape ''..'' = Some [(False, 46), (False, 46)]"
  "unescape ''.%2e'' = Some [(False, 46), (True, 46)]"
  "unescape ''.%2E'' = Some [(False, 46), (True, 46)]"
  "unescape ''%2e.'' = Some [(True, 46), (False, 46)]"
  "unescape ''%2E.'' = Some [(True, 46), (False, 46)]"
  "unescape ''%2e%2e'' = Some [(True, 46), (True, 46)]"
  "unescape ''%2e%2E'' = Some [(True, 46), (True, 46)]"
  "unescape ''%2E%2e'' = Some [(True, 46), (True, 46)]"
  "unescape ''%2E%2E'' = Some [(True, 46), (True, 46)]"
  by code_simp+

lemma single_dot_percent_encoded:
  assumes "CHR ''%'' \<notin> set raw" and "single_dot_segment (concat (map utf8_percent_encode raw))"
  shows "raw = ''.''"
proof -
  note u = unescape_percent_encoded[OF assms(1)]
  from assms(2) have
    "unescape (concat (map utf8_percent_encode raw)) \<in> {Some [(False, 46)], Some [(True, 46)]}"
    unfolding single_dot_segment_def by (auto simp: unescape_dots simp del: unescape.simps)
  then have "map (\<lambda>c. (path_percent_encode_set c, of_char c :: nat)) raw = [(False, 46)] \<or>
             map (\<lambda>c. (path_percent_encode_set c, of_char c :: nat)) raw = [(True, 46)]"
    unfolding u by simp
  then obtain c where "raw = [c]" "(of_char c :: nat) = 46"
    by (auto simp: map_eq_Cons_conv)
  then show ?thesis using of_char_dot[of c] by simp
qed

lemma double_dot_percent_encoded:
  assumes "CHR ''%'' \<notin> set raw" and "double_dot_segment (concat (map utf8_percent_encode raw))"
  shows "raw = ''..''"
proof -
  note u = unescape_percent_encoded[OF assms(1)]
  from assms(2) have
    "unescape (concat (map utf8_percent_encode raw)) \<in>
       {Some [(False, 46), (False, 46)], Some [(False, 46), (True, 46)],
        Some [(True, 46), (False, 46)], Some [(True, 46), (True, 46)]}"
    unfolding double_dot_segment_def by (auto simp: unescape_dots simp del: unescape.simps)
  then have "\<exists>a b. map (\<lambda>c. (path_percent_encode_set c, of_char c :: nat)) raw = [(a, 46), (b, 46)]"
    unfolding u by auto
  then obtain c d where "raw = [c, d]" "(of_char c :: nat) = 46" "(of_char d :: nat) = 46"
    by (auto simp: map_eq_Cons_conv)
  then show ?thesis using of_char_dot[of c] of_char_dot[of d] by simp
qed

lemma end_of_segment_percent_encoded:
  assumes "CHR ''%'' \<notin> set raw" and "\<not> dot_segment raw"
  shows "end_of_segment segments (concat (map utf8_percent_encode raw)) slash =
           segments @ [concat (map utf8_percent_encode raw)]"
  using assms single_dot_percent_encoded[OF assms(1)] double_dot_percent_encoded[OF assms(1)]
  by (auto simp: end_of_segment_def dot_segment_def)

lemma path_char_iff:
  "path_char c \<longleftrightarrow> c \<noteq> CHR ''%'' \<and> c \<noteq> CHR ''?'' \<and> c \<noteq> CHR ''#'' \<and> c \<noteq> CHR 0x5C \<and>
     \<not> ascii_tab_or_newline c"
proof -
  have e: "c = d \<longleftrightarrow> (of_char c :: nat) = of_char d" for c d :: char by (simp only: of_char_eq_iff)
  show ?thesis
    unfolding path_char_def ascii_tab_or_newline_def e[of c "CHR ''%''"] e[of c "CHR ''?''"]
      e[of c "CHR ''#''"] e[of c "CHR 0x5C"]
    by simp
qed

lemma utf8_percent_encode_slash: "utf8_percent_encode CHR ''/'' = ''/''"
  by (simp add: utf8_percent_encode_def path_percent_encode_set_def)

lemma path_state_percent_encoded:
  assumes "list_all path_char s" and "CHR ''%'' \<notin> set raw" and "CHR ''/'' \<notin> set raw"
    and "\<not> list_ex dot_segment (split_on CHR ''/'' (raw @ s))"
  shows "concat (map (\<lambda>segment. CHR ''/'' # segment)
           (path_state segments (concat (map utf8_percent_encode raw)) s)) =
         concat (map (\<lambda>segment. CHR ''/'' # segment) segments) @
           CHR ''/'' # concat (map utf8_percent_encode (raw @ s))"
  using assms
proof (induction s arbitrary: segments raw)
  case Nil
  then have "\<not> dot_segment raw" by (simp add: split_on_no_sep)
  from end_of_segment_percent_encoded[OF Nil(2) this] show ?case by simp
next
  case (Cons c cs)
  from Cons.prems(1) have pc: "path_char c" and pcs: "list_all path_char cs" by simp_all
  from pc have c: "c \<noteq> CHR ''%''" "c \<noteq> CHR ''?''" "c \<noteq> CHR ''#''" "c \<noteq> CHR 0x5C"
    by (simp_all add: path_char_iff)
  show ?case
  proof (cases "c = CHR ''/''")
    case True
    from Cons.prems(3,4) have sp: "\<not> dot_segment raw" "\<not> list_ex dot_segment (split_on CHR ''/'' cs)"
      by (simp_all add: True split_on_append_sep del: split_on.simps)
    have "concat (map (\<lambda>segment. CHR ''/'' # segment)
            (path_state (segments @ [concat (map utf8_percent_encode raw)])
               (concat (map utf8_percent_encode [])) cs)) =
          concat (map (\<lambda>segment. CHR ''/'' # segment)
            (segments @ [concat (map utf8_percent_encode raw)])) @
          CHR ''/'' # concat (map utf8_percent_encode ([] @ cs))"
      by (rule Cons.IH) (use pcs sp in simp_all)
    then show ?thesis
      using True by (simp add: end_of_segment_percent_encoded[OF Cons.prems(2) sp(1)]
            utf8_percent_encode_slash)
  next
    case False
    have "concat (map (\<lambda>segment. CHR ''/'' # segment)
            (path_state segments (concat (map utf8_percent_encode (raw @ [c]))) cs)) =
          concat (map (\<lambda>segment. CHR ''/'' # segment) segments) @
          CHR ''/'' # concat (map utf8_percent_encode ((raw @ [c]) @ cs))"
      by (rule Cons.IH) (use pcs c False Cons.prems in simp_all)
    then show ?thesis using False c by simp
  qed
qed


lemma domain_char_path_char: "domain_char x \<Longrightarrow> path_char x \<and> (of_char x :: nat) < 128"
  by (auto simp: domain_char_def path_char_def is_alnum_def is_lower_def is_upper_def is_digit_def)

lemma isValidDomain_not_dot: "isValidDomain d \<Longrightarrow> \<not> dot_segment d"
proof -
  have "\<not> isValidDomain ''.''" "\<not> isValidDomain ''..''" by code_simp+
  then show "isValidDomain d \<Longrightarrow> \<not> dot_segment d" by (auto simp: dot_segment_def)
qed

lemma strip_trailing_id:
  assumes "xs \<noteq> []" and "\<not> P (last xs)"
  shows "rev (dropWhile P (rev xs)) = xs"
  using assms by (cases xs rule: rev_cases) simp_all

lemma url_pathname_well_formed:
  assumes "well_formed dm pth"
  shows "url_pathname (''/'' @ dm @ pth) = concat (map utf8_percent_encode (''/'' @ dm @ pth))"
proof -
  from assms have v: "isValidDomain dm" and pc: "list_all path_char pth"
    and lst: "\<not> c0_control_or_space (last pth)"
    and nd: "\<not> list_ex dot_segment (split_on CHR ''/'' pth)"
    by (simp_all add: well_formed_def)
  from assms obtain rest where pth: "pth = CHR ''/'' # rest"
    by (cases pth) (auto simp: well_formed_def startsWith_def)
  note d = isValidDomain_plain[OF v]
  have dc: "\<forall>x \<in> set dm. path_char x"
    using isValidDomain_chars[OF v] domain_char_path_char by blast
  have all: "list_all path_char (dm @ pth)" using dc pc by (auto simp: list_all_iff)
  have "last (''/'' @ dm @ pth) = last pth" by (simp add: pth)
  then have strip: "rev (dropWhile c0_control_or_space (rev (''/'' @ dm @ pth))) = ''/'' @ dm @ pth"
    using lst strip_trailing_id[of "''/'' @ dm @ pth" c0_control_or_space] by simp
  have keep: "filter (\<lambda>c. \<not> ascii_tab_or_newline c) (''/'' @ dm @ pth) = ''/'' @ dm @ pth"
    unfolding filter_id_conv using all
    by (auto simp: list_all_iff path_char_iff ascii_tab_or_newline_def)
  have sp: "split_on CHR ''/'' (dm @ pth) = dm # split_on CHR ''/'' rest"
    using d(1) by (simp add: pth split_on_append_sep)
  have "\<not> list_ex dot_segment (split_on CHR ''/'' rest)" using nd by (simp add: pth)
  then have nd': "\<not> list_ex dot_segment (split_on CHR ''/'' ([] @ dm @ pth))"
    using isValidDomain_not_dot[OF v] by (simp add: sp del: split_on.simps)
  have "concat (map (\<lambda>segment. CHR ''/'' # segment)
          (path_state [] (concat (map utf8_percent_encode [])) (dm @ pth))) =
        concat (map (\<lambda>segment. CHR ''/'' # segment) []) @
          CHR ''/'' # concat (map utf8_percent_encode ([] @ dm @ pth))"
    by (rule path_state_percent_encoded) (use all nd' in simp_all)
  then show ?thesis
    unfolding url_pathname_def strip keep Let_def
    by (simp add: utf8_percent_encode_slash)
qed

subsection \<open>Parsing a constructed path\<close>

text \<open>
  Claim C8, as amended. For a well-formed pair of a domain and a path (the domain passes
  \<^verbatim>\<open>isValidDomain\<close>; the path is a string that starts with a slash, holds no \<^verbatim>\<open>%\<close>,
  \<^verbatim>\<open>?\<close>, \<^verbatim>\<open>#\<close>, backslash, tab, line feed or carriage return, does not end with a space
  or a C0 control, and has no segment \<^verbatim>\<open>.\<close> or \<^verbatim>\<open>..\<close>), \<^verbatim>\<open>parseUrl\<close> on the URL of the
  request path \<^verbatim>\<open>/{domain}{path}\<close>, as the platform's URL parser reads it, succeeds and
  gives back that domain and that path, the cache key \<open>domain @ path\<close> and the source URL
  \<^verbatim>\<open>https://\<close> followed by the domain and by the path with each segment percent-encoded.
  Spaces and characters outside ASCII are allowed in the path: the URL parser escapes them
  and \<^verbatim>\<open>decodeURIComponent\<close> gives them back.
\<close>

theorem parseUrl_roundtrip:
  assumes "well_formed dm pth" and "pathname u = url_pathname (''/'' @ dm @ pth)"
  shows "parseUrl u =
           Inr \<lparr> ParsedUrl.domain = dm, path = pth,
                 sourceUrl = ''https://'' @ dm @
                   join ''/'' (map encodeURIComponent (split_on CHR ''/'' pth)),
                 cacheKey = dm @ pth,
                 forceReprocess = (searchParams_get u ''force'' = Some ''true'' \<or>
                                   searchParams_get u ''force'' = Some ''1''),
                 viewImage = (searchParams_get u ''view'' = Some ''true'' \<or>
                              searchParams_get u ''view'' = Some ''1'') \<rparr>"
proof -
  from assms(1) have v: "isValidDomain dm" and pc: "list_all path_char pth"
    and utf: "utf8_string pth"
    by (simp_all add: well_formed_def)
  from assms(1) obtain rest where pth: "pth = CHR ''/'' # rest"
    by (cases pth) (auto simp: well_formed_def startsWith_def)
  note d = isValidDomain_plain[OF v]
  have np: "CHR ''%'' \<notin> set (''/'' @ dm @ pth)"
    using d(2) pc by (auto simp: list_all_iff path_char_iff)
  have "\<forall>c \<in> set (''/'' @ dm). (of_char c :: nat) < 128"
    using isValidDomain_chars[OF v] domain_char_path_char by auto
  from utf8_string_ascii_prefix[OF this, of pth] utf
  have us: "utf8_string (''/'' @ dm @ pth)" by simp
  have dec: "decodeURIComponent (pathname u) = Some (''/'' @ dm @ pth)"
    unfolding assms(2) url_pathname_well_formed[OF assms(1)]
    by (rule decodeURIComponent_percent_encoded[OF np us])
  have strip: "dropWhile (\<lambda>c. c = CHR ''/'') (dm @ pth) = dm @ pth"
    using d(3,4) by (cases dm) auto
  have parts: "split_on CHR ''/'' (dm @ pth) = dm # split_on CHR ''/'' rest"
    using d(1) by (simp add: pth split_on_append_sep)
  have len: "\<not> length (dm # split_on CHR ''/'' rest) < 2"
    using split_on_not_Nil[of "CHR ''/''" rest] by (cases "split_on CHR ''/'' rest") auto
  have rejoin: "''/'' @ join ''/'' (split_on CHR ''/'' rest) = pth"
    using join_split_on[of "CHR ''/''" rest] by (simp add: pth)
  show ?thesis
    using v len rejoin
    by (simp add: parseUrl_def dec strip parts Let_def del: split_on.simps join.simps)
qed

theorem parseUrl_roundtrip_witness:
  "well_formed ''example.com'' example_path \<and>
   pathname (request_URL (''/'' @ ''example.com'' @ example_path)) =
     ''/example.com/wp%20content/caf%C3%A9+1.jpg'' \<and>
   parseUrl (request_URL (''/'' @ ''example.com'' @ example_path)) =
     Inr \<lparr> ParsedUrl.domain = ''example.com'', path = example_path,
           sourceUrl = ''https://example.com/wp%20content/caf%C3%A9%2B1.jpg'',
           cacheKey = ''example.com'' @ example_path,
           forceReprocess = False, viewImage = False \<rparr>"
proof -
  have utf: "utf8_string example_path"
    by (simp add: utf8_string_def example_path_def valid_utf8_def)
  have "list_all path_char example_path" "\<not> c0_control_or_space (last example_path)"
    "\<not> list_ex dot_segment (split_on CHR ''/'' example_path)" "startsWith example_path ''/''"
    by code_simp+
  then have wf: "well_formed ''example.com'' example_path"
    using utf example_domains(1) by (simp add: well_formed_def)
  have pn: "pathname (request_URL (''/'' @ ''example.com'' @ example_path)) =
              url_pathname (''/'' @ ''example.com'' @ example_path)"
    by (simp add: request_URL_def)
  have nm: "url_pathname (''/'' @ ''example.com'' @ example_path) =
              ''/example.com/wp%20content/caf%C3%A9+1.jpg''"
    by code_simp
  have enc: "join ''/'' (map encodeURIComponent (split_on CHR ''/'' example_path)) =
               ''/wp%20content/caf%C3%A9%2B1.jpg''"
    by code_simp
  have q: "searchParams_get (request_URL p) name = None" for p name
    by (simp add: searchParams_get_def request_URL_def)
  show ?thesis
    using parseUrl_roundtrip[OF wf pn] wf
    unfolding enc q pn nm by simp
qed

text \<open>
  The claim as stated, for every pair of a valid domain and a path, fails: the URL parser
  resolves dot segments, so the path \<^verbatim>\<open>/a/../b.jpg\<close> comes back as \<^verbatim>\<open>/b.jpg\<close>;
  \<^verbatim>\<open>parseUrl\<close> percent-decodes, so the path \<^verbatim>\<open>/a%20b.jpg\<close> comes back as \<^verbatim>\<open>/a b.jpg\<close>;
  and the path \<^verbatim>\<open>/100%.jpg\<close> does not parse at all (\<^verbatim>\<open>URIError\<close>, answered with 500).
\<close>

theorem parseUrl_roundtrip_fails:
  "isValidDomain ''example.com'' \<and>
   parseUrl (request_URL (''/'' @ ''example.com'' @ ''/a/../b.jpg'')) =
     Inr \<lparr> ParsedUrl.domain = ''example.com'', path = ''/b.jpg'',
           sourceUrl = ''https://example.com/b.jpg'', cacheKey = ''example.com/b.jpg'',
           forceReprocess = False, viewImage = False \<rparr> \<and>
   parseUrl (request_URL (''/'' @ ''example.com'' @ ''/a%20b.jpg'')) =
     Inr \<lparr> ParsedUrl.domain = ''example.com'', path = ''/a b.jpg'',
           sourceUrl = ''https://example.com/a%20b.jpg'', cacheKey = ''example.com/a b.jpg'',
           forceReprocess = False, viewImage = False \<rparr> \<and>
   parseUrl (request_URL (''/'' @ ''example.com'' @ ''/100%.jpg'')) = Inl URIError"
  by code_simp

subsection \<open>The origin allow-list\<close>

lemma isAllowedOrigin_star: "isAllowedOrigin newURL srcUrl ''*''"
  by (simp add: isAllowedOrigin_def)

lemma isAllowedOrigin_single:
  assumes "newURL srcUrl = Some url" and "CHR '','' \<notin> set entry" and "entry \<noteq> ''*''"
  shows "isAllowedOrigin newURL srcUrl entry \<longleftrightarrow>
           (let origin = toLowerCase (trim entry)
            in origin = ''*'' \<or>
               (if startsWith origin ''*.'' then endsWith (hostname url) (drop 2 origin)
                else hostname url = origin))"
  using assms by (simp add: isAllowedOrigin_def split_on_no_sep Let_def)

lemma isAllowedOrigin_exact:
  assumes "newURL srcUrl = Some url" and "CHR '','' \<notin> set entry"
    and "toLowerCase (trim entry) = entry" and "entry \<noteq> ''*''" and "\<not> startsWith entry ''*.''"
  shows "isAllowedOrigin newURL srcUrl entry \<longleftrightarrow> hostname url = entry"
  using assms by (simp add: isAllowedOrigin_single Let_def)

lemma wildcard_entry:
  "CHR '','' \<notin> set ''*.example.com''" "''*.example.com'' \<noteq> ''*''"
  "toLowerCase (trim ''*.example.com'') = ''*.example.com''"
  "startsWith ''*.example.com'' ''*.''" "drop 2 ''*.example.com'' = ''example.com''"
  by code_simp+

lemma isAllowedOrigin_wildcard:
  assumes "newURL srcUrl = Some url"
  shows "isAllowedOrigin newURL srcUrl ''*.example.com'' \<longleftrightarrow>
           endsWith (hostname url) ''example.com''"
  using wildcard_entry(3,4,5)
    isAllowedOrigin_single[where newURL = newURL and srcUrl = srcUrl and url = url
      and entry = "''*.example.com''", OF assms wildcard_entry(1,2)]
  by (simp add: Let_def)

lemma wildcard_examples:
  "endsWith ''img.example.com'' ''example.com''"
  "\<not> endsWith ''example.com.evil.com'' ''example.com''"
  "endsWith ''notexample.com'' ''example.com''"
  by code_simp+

lemma allow_list_examples:
  "isAllowedOrigin https_URL ''https://example.com/a.jpg'' ''foo.com , Example.COM''"
  "\<not> isAllowedOrigin https_URL ''https://example.com/a.jpg'' ''foo.com,xexample.com''"
  "isAllowedOrigin https_URL ''https://img.example.com/a.jpg'' ''*.example.com''"
  "\<not> isAllowedOrigin https_URL ''https://example.com.evil.com/a.jpg'' ''*.example.com''"
  by code_simp+

text \<open>
  Claim C3. The allow-list \<^verbatim>\<open>*\<close> allows every URL (\<open>isAllowedOrigin_star\<close>), an exact
  entry allows exactly the host name equal to it (\<open>isAllowedOrigin_exact\<close>), and the entry
  \<^verbatim>\<open>*.example.com\<close> allows the host names that end with \<^verbatim>\<open>example.com\<close>
  (\<open>isAllowedOrigin_wildcard\<close>): \<^verbatim>\<open>img.example.com\<close> and not
  \<^verbatim>\<open>example.com.evil.com\<close>, but also \<^verbatim>\<open>notexample.com\<close>, because
  \<^verbatim>\<open>origin.substring(2)\<close> drops the dot with the star. The claim says the last is refused;
  the code allows it.
\<close>

theorem wildcard_allows_unrelated_suffix:
  "map_option hostname (https_URL ''https://notexample.com/a.jpg'') = Some ''notexample.com'' \<and>
   isAllowedOrigin https_URL ''https://notexample.com/a.jpg'' ''*.example.com''"
  by code_simp

section \<open>Properties of the request handler\<close>

subsection \<open>Requests that do not parse\<close>

lemma parseUrl_malformed:
  assumes "decodeURIComponent (pathname u) = Some decoded"
    and "length (split_on CHR ''/'' (dropWhile (\<lambda>c. c = CHR ''/'') decoded)) < 2"
  shows "parseUrl u = Inl (Error ''Invalid URL format: /domain.com/path/to/image.jpg'')"
  using assms by (simp add: parseUrl_def)

lemma parseUrl_invalid_domain:
  assumes "decodeURIComponent (pathname u) = Some decoded"
    and "\<not> length (split_on CHR ''/'' (dropWhile (\<lambda>c. c = CHR ''/'') decoded)) < 2"
    and "\<not> isValidDomain (hd (split_on CHR ''/'' (dropWhile (\<lambda>c. c = CHR ''/'') decoded)))"
  shows "parseUrl u =
           Inl (Error (''Invalid domain: '' @
                       hd (split_on CHR ''/'' (dropWhile (\<lambda>c. c = CHR ''/'') decoded))))"
  using assms by (simp add: parseUrl_def Let_def)

lemma worker_fetch_parse_error:
  assumes "req_method request \<noteq> ''OPTIONS''"
    and "pathname (req_url request) \<notin> {''/health'', ''/ping'', ''/stats''}"
    and "parseUrl (req_url request) = Inl err"
  shows "worker_fetch P request env = (Reply (errorResponse (error_message err) 500), R2 env)"
    and "worker_fetch_1_0_4 P request env = (Reply (errorResponse (error_message err) 500), R2 env)"
  using assms by (simp_all add: worker_fetch_def worker_fetch_1_0_4_def Let_def)

lemma request_for_sel:
  "req_method (request_for m p) = m"
  "pathname (req_url (request_for m p)) = url_pathname p"
  "searchParams (req_url (request_for m p)) = []"
  "req_headers (request_for m p) = Map.empty"
  by (simp_all add: request_for_def request_URL_def)

lemma example_pathname:
  "url_pathname ''/example.com'' = ''/example.com''"
  "url_pathname ''/exa_mple.com/a.jpg'' = ''/exa_mple.com/a.jpg''"
  "url_pathname ''/example.com/a.jpg'' = ''/example.com/a.jpg''"
  by code_simp+

lemma example_decoded:
  "decodeURIComponent ''/example.com'' = Some ''/example.com''"
  "decodeURIComponent ''/exa_mple.com/a.jpg'' = Some ''/exa_mple.com/a.jpg''"
  "decodeURIComponent ''/example.com/a.jpg'' = Some ''/example.com/a.jpg''"
  by (simp_all add: decodeURIComponent_no_percent)

text \<open>
  Claim C4, as amended. A request that reaches the parser (its method is not
  \<^verbatim>\<open>OPTIONS\<close> and its path is none of \<^verbatim>\<open>/health\<close>, \<^verbatim>\<open>/ping\<close>, \<^verbatim>\<open>/stats\<close>) and whose
  decoded path has fewer than two segments, or a first segment that is no valid domain, is
  answered by the \<^verbatim>\<open>catch\<close> of the handler: status 500, with the message of the error
  (\<^verbatim>\<open>Invalid URL format: ...\<close> or \<^verbatim>\<open>Invalid domain: \<close> and the segment) in the JSON body.
  Both versions of the handler do so, and the bucket is left as it was.
\<close>

theorem parse_failure_is_500:
  assumes "req_method request \<noteq> ''OPTIONS''"
    and "pathname (req_url request) \<notin> {''/health'', ''/ping'', ''/stats''}"
    and "decodeURIComponent (pathname (req_url request)) = Some decoded"
    and "pathParts = split_on CHR ''/'' (dropWhile (\<lambda>c. c = CHR ''/'') decoded)"
    and "length pathParts < 2 \<or> \<not> isValidDomain (hd pathParts)"
  shows "(let msg = (if length pathParts < 2
                     then ''Invalid URL format: /domain.com/path/to/image.jpg''
                     else ''Invalid domain: '' @ hd pathParts)
          in worker_fetch P request env = (Reply (errorResponse msg 500), R2 env) \<and>
             worker_fetch_1_0_4 P request env = (Reply (errorResponse msg 500), R2 env) \<and>
             status (errorResponse msg 500) = 500)"
proof (cases "length pathParts < 2")
  case True
  then have "parseUrl (req_url request) =
               Inl (Error ''Invalid URL format: /domain.com/path/to/image.jpg'')"
    using assms(3,4) parseUrl_malformed by blast
  from worker_fetch_parse_error[OF assms(1,2) this] True show ?thesis
    by (simp add: error_message_def errorResponse_def)
next
  case False
  with assms(5) have "\<not> isValidDomain (hd pathParts)" by blast
  with False have "parseUrl (req_url request) = Inl (Error (''Invalid domain: '' @ hd pathParts))"
    using assms(3,4) parseUrl_invalid_domain by blast
  from worker_fetch_parse_error[OF assms(1,2) this] False show ?thesis
    by (simp add: error_message_def errorResponse_def)
qed

theorem parse_failure_is_500_witness:
  "req_method (request_for ''GET'' ''/exa_mple.com/a.jpg'') \<noteq> ''OPTIONS'' \<and>
   \<not> isValidDomain ''exa_mple.com'' \<and>
   worker_fetch example_platform (request_for ''GET'' ''/exa_mple.com/a.jpg'') example_Env =
     (Reply (errorResponse ''Invalid domain: exa_mple.com'' 500), R2 example_Env) \<and>
   worker_fetch_1_0_4 example_platform (request_for ''GET'' ''/exa_mple.com/a.jpg'') example_Env =
     (Reply (errorResponse ''Invalid domain: exa_mple.com'' 500), R2 example_Env)"
proof -
  let ?r = "request_for ''GET'' ''/exa_mple.com/a.jpg''"
  have a: "req_method ?r \<noteq> ''OPTIONS''"
    "pathname (req_url ?r) \<notin> {''/health'', ''/ping'', ''/stats''}"
    "decodeURIComponent (pathname (req_url ?r)) = Some ''/exa_mple.com/a.jpg''"
    by (simp_all add: request_for_sel example_pathname example_decoded)
  have b: "[''exa_mple.com'', ''a.jpg''] =
             split_on CHR ''/'' (dropWhile (\<lambda>c. c = CHR ''/'') ''/exa_mple.com/a.jpg'')"
    by simp
  have c: "length [''exa_mple.com'', ''a.jpg''] < 2 \<or> \<not> isValidDomain (hd [''exa_mple.com'', ''a.jpg''])"
    using example_domains(2) by simp
  show ?thesis
    using parse_failure_is_500[OF a b c, of example_platform example_Env] a(1) example_domains(2)
    by (simp add: Let_def)
qed

text \<open>
  The claim as stated, a 4xx status for these requests, fails: a path of one segment and a
  path whose first segment is no valid domain are both answered with 500.
\<close>

theorem parse_failure_not_4xx:
  "parseUrl (req_url (request_for ''GET'' ''/example.com'')) =
     Inl (Error ''Invalid URL format: /domain.com/path/to/image.jpg'') \<and>
   reply_status (fst (worker_fetch example_platform (request_for ''GET'' ''/example.com'') example_Env))
     = Some 500 \<and>
   reply_status (fst (worker_fetch_1_0_4 example_platform (request_for ''GET'' ''/example.com'') example_Env))
     = Some 500 \<and>
   \<not> isValidDomain ''exa_mple.com'' \<and>
   reply_status (fst (worker_fetch example_platform (request_for ''GET'' ''/exa_mple.com/a.jpg'') example_Env))
     = Some 500 \<and>
   reply_status (fst (worker_fetch_1_0_4 example_platform (request_for ''GET'' ''/exa_mple.com/a.jpg'') example_Env))
     = Some 500"
proof -
  have p1: "parseUrl (req_url (request_for ''GET'' ''/example.com'')) =
              Inl (Error ''Invalid URL format: /domain.com/path/to/image.jpg'')"
    by (rule parseUrl_malformed[where decoded = "''/example.com''"])
       (simp_all add: request_for_sel example_pathname example_decoded)
  have p2: "parseUrl (req_url (request_for ''GET'' ''/exa_mple.com/a.jpg'')) =
              Inl (Error ''Invalid domain: exa_mple.com'')"
    using parseUrl_invalid_domain[where decoded = "''/exa_mple.com/a.jpg''"
        and u = "req_url (request_for ''GET'' ''/exa_mple.com/a.jpg'')"] example_domains(2)
    by (simp add: request_for_sel example_pathname example_decoded)
  have m: "req_method (request_for ''GET'' p) \<noteq> ''OPTIONS''" for p
    by (simp add: request_for_sel)
  have n: "pathname (req_url (request_for ''GET'' ''/example.com'')) \<notin> {''/health'', ''/ping'', ''/stats''}"
    "pathname (req_url (request_for ''GET'' ''/exa_mple.com/a.jpg'')) \<notin> {''/health'', ''/ping'', ''/stats''}"
    by (simp_all add: request_for_sel example_pathname)
  show ?thesis
    using worker_fetch_parse_error[OF m n(1) p1] worker_fetch_parse_error[OF m n(2) p2]
      example_domains(2) p1
    by (simp add: reply_status_def errorResponse_def)
qed

subsection \<open>Cache hits\<close>

lemma parseUrl_Inr_pathname:
  assumes "parseUrl u = Inr p"
  shows "pathname u \<notin> {''/health'', ''/ping'', ''/stats''}"
proof
  assume "pathname u \<in> {''/health'', ''/ping'', ''/stats''}"
  then have "parseUrl u = Inl (Error ''Invalid URL format: /domain.com/path/to/image.jpg'')"
    by (auto simp: parseUrl_def decodeURIComponent_no_percent)
  with assms show False by simp
qed

lemma handleConditionalRequest_None:
  "req_headers request ''if-none-match'' \<noteq> Some tag \<Longrightarrow> handleConditionalRequest request tag = None"
  by (simp add: handleConditionalRequest_def split: option.splits)

lemma example_parse:
  "parseUrl (req_url (request_for m ''/example.com/a.jpg'')) =
     Inr \<lparr> ParsedUrl.domain = ''example.com'', path = ''/a.jpg'', sourceUrl = ''https://example.com/a.jpg'',
           cacheKey = ''example.com/a.jpg'', forceReprocess = False, viewImage = False \<rparr>"
proof -
  have e: "encodeURIComponent ''a.jpg'' = ''a.jpg''" "encodeURIComponent [] = []" by code_simp+
  show ?thesis
    using example_domains(1)
    by (simp add: parseUrl_def request_for_sel example_pathname example_decoded Let_def
          searchParams_get_def e)
qed

lemma example_allowed:
  "isAllowedOrigin https_URL ''https://example.com/a.jpg'' ''*''"
  "\<not> isAllowedOrigin https_URL ''https://example.com/a.jpg'' ''cdn.example.org''"
  by code_simp+

text \<open>
  The body of a hit in version 1.0.4. The literal decodes to the 42 bytes of a GIF, five of
  which (\<open>128\<close>, three times \<open>255\<close>, \<open>249\<close>) are above \<open>127\<close>; as a string each of these is
  a character that UTF-8 writes in two bytes, so the body is 47 bytes long.
\<close>

lemma forgiving_base64_decode_literal:
  "forgiving_base64_decode ''R0lGODlhAQABAIAAAAAAAP///yH5BAEAAAAALAAAAAABAAEAAAIBRAA7'' =
     Some [71, 73, 70, 56, 57, 97, 1, 0, 1, 0, 128, 0, 0, 0, 0, 0, 255, 255, 255, 33, 249, 4,
           1, 0, 0, 0, 0, 44, 0, 0, 0, 0, 1, 0, 1, 0, 0, 2, 1, 68, 0, 59]"
  by code_simp

lemma atob_literal:
  "atob ''R0lGODlhAQABAIAAAAAAAP///yH5BAEAAAAALAAAAAABAAEAAAIBRAA7'' =
     Some (map char_of
           [71, 73, 70, 56, 57, 97, 1, 0, 1, 0, 194, 128, 0, 0, 0, 0, 0, 195, 191,
            195, 191, 195, 191, 33, 195, 185, 4, 1, 0, 0, 0, 0, 44, 0, 0, 0, 0, 1,
            0, 1, 0, 0, 2, 1, 68, 0, 59 :: nat])"
  by code_simp

lemma atob_literal_length:
  "length (map char_of
           [71, 73, 70, 56, 57, 97, 1, 0, 1, 0, 194, 128, 0, 0, 0, 0, 0, 195, 191,
            195, 191, 195, 191, 33, 195, 185, 4, 1, 0, 0, 0, 0, 44, 0, 0, 0, 0, 1,
            0, 1, 0, 0, 2, 1, 68, 0, 59 :: nat]) = 47"
  by simp

text \<open>
  Claim C6, as amended. A \<^verbatim>\<open>GET\<close> request that parses, whose source URL passes the
  allow-list, with the force and view flags unset, whose cache key has a stored entry and
  whose \<^verbatim>\<open>If-None-Match\<close> header is not the stored ETag: version 1.1.0 of the handler
  answers 200 with the stored bytes, the stored ETag, the stored content type
  (\<^verbatim>\<open>image/jpeg\<close> when the entry has none), \<^verbatim>\<open>Cache-Control: public, max-age=31536000,
  immutable\<close> and \<^verbatim>\<open>X-ImgPro-Status: hit\<close>; version 1.0.4 answers 200 with the fixed
  47-byte body above (the string that \<^verbatim>\<open>atob\<close> returns for the literal, sent in UTF-8),
  \<^verbatim>\<open>Content-Type: image/gif\<close>, \<^verbatim>\<open>Content-Length: 43\<close>, the stored ETag,
  \<^verbatim>\<open>Cache-Control: no-cache\<close> and \<^verbatim>\<open>X-ImgPro-Status: cached\<close>. Neither changes the
  bucket.
\<close>

theorem cache_hit_response:
  assumes "req_method request = ''GET''"
    and "parseUrl (req_url request) = Inr parsed"
    and "isAllowedOrigin (new_URL P) (sourceUrl parsed) (or_else (ALLOWED_ORIGINS env) ''*'')"
    and "\<not> forceReprocess parsed" and "\<not> viewImage parsed"
    and "R2 env (cacheKey parsed) = Some cached"
    and "req_headers request ''if-none-match'' \<noteq> Some (etag cached)"
  shows "(\<exists>r. worker_fetch P request env = (Reply r, R2 env) \<and>
              status r = 200 \<and>
              body r = Bytes (r2_bytes cached) \<and>
              header r ''ETag'' = Some (etag cached) \<and>
              header r ''Content-Type'' = Some (or_else (contentType cached) ''image/jpeg'') \<and>
              header r ''Cache-Control'' = Some ''public, max-age=31536000, immutable'' \<and>
              header r ''X-ImgPro-Status'' = Some ''hit'') \<and>
         (\<exists>r gif. worker_fetch_1_0_4 P request env = (Reply r, R2 env) \<and>
              status r = 200 \<and>
              atob ''R0lGODlhAQABAIAAAAAAAP///yH5BAEAAAAALAAAAAABAAEAAAIBRAA7'' = Some gif \<and>
              body r = Text gif \<and>
              header r ''ETag'' = Some (etag cached) \<and>
              header r ''Content-Type'' = Some ''image/gif'' \<and>
              header r ''Content-Length'' = Some ''43'' \<and>
              header r ''Cache-Control'' = Some ''no-cache'' \<and>
              header r ''X-ImgPro-Status'' = Some ''cached'')"
proof -
  have m: "req_method request \<noteq> ''OPTIONS''" "req_method request \<noteq> ''DELETE''"
    "req_method request \<noteq> ''HEAD''"
    using assms(1) by simp_all
  note pn = parseUrl_Inr_pathname[OF assms(2)]
  note c = handleConditionalRequest_None[OF assms(7)]
  have g: "getFromCache env (cacheKey parsed) = Some cached"
    using assms(6) by (simp add: getFromCache_def)
  show ?thesis
    using m pn assms(1,3,4,5)
    by (simp add: worker_fetch_def worker_fetch_1_0_4_def Let_def assms(2) g c header_def
          atob_literal)
qed

theorem cache_hit_response_witness:
  "(\<exists>r. worker_fetch example_platform (request_for ''GET'' ''/example.com/a.jpg'') example_Env =
          (Reply r, R2 example_Env) \<and>
        status r = 200 \<and> body r = Bytes ''JFIF-bytes'' \<and>
        header r ''ETag'' = Some ''abc123'' \<and>
        header r ''Content-Type'' = Some ''image/png'' \<and>
        header r ''Cache-Control'' = Some ''public, max-age=31536000, immutable'' \<and>
        header r ''X-ImgPro-Status'' = Some ''hit'') \<and>
   (\<exists>r gif. worker_fetch_1_0_4 example_platform (request_for ''GET'' ''/example.com/a.jpg'')
             example_Env = (Reply r, R2 example_Env) \<and>
        status r = 200 \<and> body r = Text gif \<and> length gif = 47 \<and>
        header r ''ETag'' = Some ''abc123'' \<and>
        header r ''Content-Length'' = Some ''43'' \<and>
        header r ''X-ImgPro-Status'' = Some ''cached'')"
proof -
  let ?r = "request_for ''GET'' ''/example.com/a.jpg''"
  let ?p = "\<lparr> ParsedUrl.domain = ''example.com'', path = ''/a.jpg'',
             sourceUrl = ''https://example.com/a.jpg'', cacheKey = ''example.com/a.jpg'',
             forceReprocess = False, viewImage = False \<rparr>"
  have h1: "req_method ?r = ''GET''" by (simp add: request_for_sel)
  have h3: "isAllowedOrigin (new_URL example_platform) (sourceUrl ?p)
              (or_else (ALLOWED_ORIGINS example_Env) ''*'')"
    using example_allowed(1) by (simp add: example_platform_def example_Env_def or_else_def)
  have h4: "\<not> forceReprocess ?p" "\<not> viewImage ?p" by simp_all
  have h6: "R2 example_Env (cacheKey ?p) = Some example_object" by (simp add: example_Env_def)
  have h7: "req_headers ?r ''if-none-match'' \<noteq> Some (etag example_object)"
    by (simp add: request_for_sel)
  from cache_hit_response[OF h1 example_parse h3 h4 h6 h7]
  show ?thesis by (auto simp: example_object_def or_else_def atob_literal)
qed

text \<open>
  The claim as stated fails in two ways: with an allow-list that does not name the origin,
  version 1.1.0 answers 403 although the entry is stored; and version 1.0.4 answers a hit
  with its fixed body, not with the stored bytes.
\<close>

theorem cache_hit_not_always_served:
  "R2 restricted_Env ''example.com/a.jpg'' = Some example_object \<and>
   reply_status (fst (worker_fetch example_platform (request_for ''GET'' ''/example.com/a.jpg'')
                        restricted_Env)) = Some 403 \<and>
   R2 example_Env ''example.com/a.jpg'' = Some example_object \<and>
   fst (worker_fetch_1_0_4 example_platform (request_for ''GET'' ''/example.com/a.jpg'') example_Env) =
     Reply \<lparr> status = 200,
             headers = [(''Content-Type'', ''image/gif''), (''Cache-Control'', ''no-cache''),
                        (''Content-Length'', ''43''), (''ETag'', ''abc123''),
                        (''X-ImgPro-Status'', ''cached'')] @ getCORSHeaders,
             body = Text (map char_of
                     [71, 73, 70, 56, 57, 97, 1, 0, 1, 0, 194, 128, 0, 0, 0, 0, 0, 195, 191,
                      195, 191, 195, 191, 33, 195, 185, 4, 1, 0, 0, 0, 0, 44, 0, 0, 0, 0, 1,
                      0, 1, 0, 0, 2, 1, 68, 0, 59 :: nat]) \<rparr>"
proof -
  have a: "\<not> isAllowedOrigin (new_URL example_platform) ''https://example.com/a.jpg''
              (or_else (ALLOWED_ORIGINS restricted_Env) ''*'')"
    using example_allowed(2)
    by (simp add: example_platform_def restricted_Env_def example_Env_def or_else_def)
  have b: "isAllowedOrigin (new_URL example_platform) ''https://example.com/a.jpg''
              (or_else (ALLOWED_ORIGINS example_Env) ''*'')"
    using example_allowed(1) by (simp add: example_platform_def example_Env_def or_else_def)
  have 1: "reply_status (fst (worker_fetch example_platform (request_for ''GET'' ''/example.com/a.jpg'')
                        restricted_Env)) = Some 403"
    using a
    by (simp add: worker_fetch_def Let_def example_parse reply_status_def errorResponse_def
          request_for_sel example_pathname)
  have 2: "fst (worker_fetch_1_0_4 example_platform (request_for ''GET'' ''/example.com/a.jpg'') example_Env) =
     Reply \<lparr> status = 200,
             headers = [(''Content-Type'', ''image/gif''), (''Cache-Control'', ''no-cache''),
                        (''Content-Length'', ''43''), (''ETag'', ''abc123''),
                        (''X-ImgPro-Status'', ''cached'')] @ getCORSHeaders,
             body = Text (map char_of
                     [71, 73, 70, 56, 57, 97, 1, 0, 1, 0, 194, 128, 0, 0, 0, 0, 0, 195, 191,
                      195, 191, 195, 191, 33, 195, 185, 4, 1, 0, 0, 0, 0, 44, 0, 0, 0, 0, 1,
                      0, 1, 0, 0, 2, 1, 68, 0, 59 :: nat]) \<rparr>"
    using b
    by (simp add: worker_fetch_1_0_4_def Let_def example_parse getFromCache_def
          handleConditionalRequest_def request_for_sel example_pathname example_Env_def
          example_object_def atob_literal)
  show ?thesis using 1 2 by (simp add: restricted_Env_def example_Env_def)
qed

section \<open>Properties of the origin functions\<close>

subsection \<open>Block detection\<close>

lemma parseInt_empty: "parseInt [] r = None"
  by (simp add: parseInt_def Let_def startsWith_def split: option.splits)

lemma content_length_truthy:
  "(case h of None \<Rightarrow> False
    | Some cl \<Rightarrow> cl \<noteq> [] \<and> (case parseInt cl (Some 10) of None \<Rightarrow> False | Some n \<Rightarrow> n < 50000))
   \<longleftrightarrow> (case (case h of None \<Rightarrow> None | Some cl \<Rightarrow> parseInt cl (Some 10)) of
          Some n \<Rightarrow> n < 50000 | None \<Rightarrow> False)"
  by (cases h) (auto simp: parseInt_empty split: option.splits)

lemma status_strings: "toString 401 = ''401''" "toString 403 = ''403''"
  by code_simp+

text \<open>
  Claim C7. For every response, \<^verbatim>\<open>detectBlockedResponse\<close> gives the classification of the
  decision tree: 401 and 403 first, then 429, then a content type containing
  \<^verbatim>\<open>text/html\<close> with a Content-Length that is a number below 50000, then other HTML, then
  a content type starting with \<^verbatim>\<open>text/\<close>, then one containing \<^verbatim>\<open>application/json\<close>, then
  any other content type that is present and does not start with \<^verbatim>\<open>image/\<close>, and
  otherwise not blocked, with no reason.
\<close>

theorem detectBlockedResponse_decision_tree:
  "detectBlockedResponse response ExpectImage =
     block_decision_tree (res_status response) (content_type_of response) (content_length_of response)"
proof -
  have cl: "(case res_headers response ''content-length'' of None \<Rightarrow> False
             | Some cl \<Rightarrow> cl \<noteq> [] \<and>
                 (case parseInt cl (Some 10) of None \<Rightarrow> False | Some n \<Rightarrow> n < 50000))
            \<longleftrightarrow> (case content_length_of response of Some n \<Rightarrow> n < 50000 | None \<Rightarrow> False)"
    unfolding content_length_of_def by (rule content_length_truthy)
  show ?thesis
    unfolding detectBlockedResponse_def block_decision_tree_def Let_def cl
    by (simp add: content_type_of_def is_blocked_def status_strings)
qed

theorem detectBlockedResponse_decision_tree_witness:
  "detectBlockedResponse html_response ExpectImage =
     \<lparr> blocked = True, reason = Some ''html_challenge_page'' \<rparr>"
proof -
  have "block_decision_tree (res_status html_response) (content_type_of html_response)
          (content_length_of html_response) = \<lparr> blocked = True, reason = Some ''html_challenge_page'' \<rparr>"
    by code_simp
  then show ?thesis by (simp add: detectBlockedResponse_decision_tree)
qed

subsection \<open>The size guard\<close>

lemma too_long_iff:
  "(case h of None \<Rightarrow> None
    | Some cl \<Rightarrow> if cl = [] then None
                 else (case parseInt cl r of None \<Rightarrow> None
                       | Some sz \<Rightarrow> if sz > maxSize then Some sz else None)) = None
   \<longleftrightarrow> (\<forall>n. (case h of None \<Rightarrow> None | Some cl \<Rightarrow> parseInt cl r) = Some n \<longrightarrow> n \<le> maxSize)"
  by (cases h) (auto simp: parseInt_empty split: option.splits)

lemma fetchImageData_rejects:
  "(res_body response = Inr x \<and> maxSize < int (length x) \<longrightarrow>
      (\<exists>sz. fetchImageData response maxSize = Inl (file_too_large sz maxSize)) \<and>
      (\<exists>sz. fetchImageData_legacy response maxSize = Inl (file_too_large sz maxSize)))"
  unfolding fetchImageData_def fetchImageData_legacy_def Let_def
  by (auto split: option.splits sum.splits)

text \<open>
  Claim C5. \<^verbatim>\<open>fetchImageData\<close> returns bytes exactly when they are the body that was read,
  their length is at most \<open>maxSize\<close>, and the Content-Length header, if it is there and
  parses to a number, is at most \<open>maxSize\<close>. A body longer than \<open>maxSize\<close> is always
  rejected with \<^verbatim>\<open>File too large\<close>; when the header is missing, is no number or is within
  the limit, the rejection comes after the download and reports the actual length. The same
  holds of the older version, with its own reading of the header.
\<close>

theorem fetchImageData_accepts_iff:
  "(fetchImageData response maxSize = Inr x \<longleftrightarrow>
      res_body response = Inr x \<and> int (length x) \<le> maxSize \<and>
      (\<forall>n. content_length_of response = Some n \<longrightarrow> n \<le> maxSize)) \<and>
   (fetchImageData_legacy response maxSize = Inr x \<longleftrightarrow>
      res_body response = Inr x \<and> int (length x) \<le> maxSize \<and>
      (\<forall>n. content_length_legacy response = Some n \<longrightarrow> n \<le> maxSize)) \<and>
   (res_body response = Inr x \<and> maxSize < int (length x) \<and>
    (\<forall>n. content_length_of response = Some n \<longrightarrow> n \<le> maxSize) \<longrightarrow>
      fetchImageData response maxSize = Inl (file_too_large (int (length x)) maxSize)) \<and>
   (res_body response = Inr x \<and> maxSize < int (length x) \<and>
    (\<forall>n. content_length_legacy response = Some n \<longrightarrow> n \<le> maxSize) \<longrightarrow>
      fetchImageData_legacy response maxSize = Inl (file_too_large (int (length x)) maxSize)) \<and>
   (res_body response = Inr x \<and> maxSize < int (length x) \<longrightarrow>
      (\<exists>sz. fetchImageData response maxSize = Inl (file_too_large sz maxSize)) \<and>
      (\<exists>sz. fetchImageData_legacy response maxSize = Inl (file_too_large sz maxSize)))"
proof -
  note t1 = too_long_iff[where h = "res_headers response ''content-length''" and r = "Some 10" and maxSize = maxSize,
      folded content_length_of_def]
  note t2 = too_long_iff[where h = "res_headers response ''content-length''" and r = None and maxSize = maxSize,
      folded content_length_legacy_def]
  have a: "fetchImageData response maxSize = Inr x \<longleftrightarrow>
      res_body response = Inr x \<and> int (length x) \<le> maxSize \<and>
      (\<forall>n. content_length_of response = Some n \<longrightarrow> n \<le> maxSize)"
    unfolding fetchImageData_def Let_def using t1
    by (auto split: option.splits sum.splits simp: file_too_large_def)
  have b: "fetchImageData_legacy response maxSize = Inr x \<longleftrightarrow>
      res_body response = Inr x \<and> int (length x) \<le> maxSize \<and>
      (\<forall>n. content_length_legacy response = Some n \<longrightarrow> n \<le> maxSize)"
    unfolding fetchImageData_legacy_def Let_def using t2
    by (auto split: option.splits sum.splits simp: file_too_large_def)
  have c: "res_body response = Inr x \<and> maxSize < int (length x) \<and>
    (\<forall>n. content_length_of response = Some n \<longrightarrow> n \<le> maxSize) \<longrightarrow>
      fetchImageData response maxSize = Inl (file_too_large (int (length x)) maxSize)"
    unfolding fetchImageData_def Let_def using t1
    by (auto split: option.splits sum.splits)
  have d: "res_body response = Inr x \<and> maxSize < int (length x) \<and>
    (\<forall>n. content_length_legacy response = Some n \<longrightarrow> n \<le> maxSize) \<longrightarrow>
      fetchImageData_legacy response maxSize = Inl (file_too_large (int (length x)) maxSize)"
    unfolding fetchImageData_legacy_def Let_def using t2
    by (auto split: option.splits sum.splits)
  show ?thesis using a b c d fetchImageData_rejects[of response x maxSize] by blast
qed

lemma understated:
  "res_body understated_response = Inr ''twelve bytes''"
  "content_length_of understated_response = Some 5"
  "content_length_legacy understated_response = Some 5"
  by code_simp+

theorem fetchImageData_accepts_iff_witness:
  "content_length_of understated_response = Some 5 \<and>
   length ''twelve bytes'' = 12 \<and>
   fetchImageData understated_response 10 = Inl (file_too_large 12 10) \<and>
   fetchImageData_legacy understated_response 10 = Inl (file_too_large 12 10) \<and>
   fetchImageData understated_response 12 = Inr ''twelve bytes'' \<and>
   fetchImageData_legacy understated_response 12 = Inr ''twelve bytes''"
  using fetchImageData_accepts_iff[of understated_response 10 "''twelve bytes''"]
    fetchImageData_accepts_iff[of understated_response 12 "''twelve bytes''"] understated
  by simp

section \<open>Properties of the usage tracker\<close>

subsection \<open>What the handlers do to each counter\<close>

lemma fetch_inv:
  "usage_inv s \<Longrightarrow> payload \<noteq> Null \<Longrightarrow> usage_inv (state_of (tracker_fetch payload ok s))"
  by (cases payload)
     (auto simp: usage_inv_def counters_ok_def state_of_def tracker_fetch_def Let_def stored_num_def)

lemma fetch_bound: "usage_bound s \<Longrightarrow> usage_bound (state_of (tracker_fetch payload ok s))"
  by (cases payload)
     (auto simp: usage_bound_def counters_bounded_def state_of_def tracker_fetch_def Let_def
        stored_num_def)

lemma record_events_inv: "usage_inv s \<Longrightarrow> no_null evs \<Longrightarrow> usage_inv (record_events evs s)"
proof (induction evs arbitrary: s)
  case Nil then show ?case by simp
next
  case (Cons ev evs)
  obtain b ok where ev: "ev = (b, ok)" by (cases ev)
  from Cons.prems have "b \<noteq> Null" "no_null evs" by (simp_all add: ev no_null_def)
  with Cons.prems have "usage_inv (state_of (tracker_fetch b ok s))" by (simp add: fetch_inv)
  then show ?case using Cons.IH \<open>no_null evs\<close> by (simp add: ev state_of_def)
qed

lemma record_events_bound: "usage_bound s \<Longrightarrow> usage_bound (record_events evs s)"
proof (induction evs arbitrary: s)
  case Nil then show ?case by simp
next
  case (Cons ev evs)
  obtain b ok where ev: "ev = (b, ok)" by (cases ev)
  from Cons.prems have "usage_bound (state_of (tracker_fetch b ok s))" by (rule fetch_bound)
  then show ?case using Cons.IH by (simp add: ev state_of_def)
qed

lemma fetch_counters:
  "requests (state_of (tracker_fetch payload ok s)) = requests s + recorded (initialized s) [(payload, ok)]"
  "cacheHits (state_of (tracker_fetch payload ok s)) = cacheHits s + recorded_hits [(payload, ok)]"
  "cacheMisses (state_of (tracker_fetch payload ok s)) = cacheMisses s + recorded_misses [(payload, ok)]"
  "d1Failures (state_of (tracker_fetch payload ok s)) = d1Failures s"
  "alarmTime (state_of (tracker_fetch payload ok s)) = alarmTime s"
  "initialized (state_of (tracker_fetch payload ok s)) \<longleftrightarrow> initialized s \<or> payload \<noteq> Rejects"
  by (cases payload; simp add: state_of_def tracker_fetch_def Let_def)+

lemma record_events_requests:
  "requests (record_events evs s) = requests s + recorded (initialized s) evs"
proof (induction evs arbitrary: s)
  case Nil show ?case by simp
next
  case (Cons ev evs)
  obtain b ok where ev: "ev = (b, ok)" by (cases ev)
  show ?case
    using Cons[of "fst (snd (tracker_fetch b ok s))"] fetch_counters(1,6)[of b ok s]
    by (cases b) (simp_all add: ev state_of_def)
qed

lemma record_events_cacheHits: "cacheHits (record_events evs s) = cacheHits s + recorded_hits evs"
proof (induction evs arbitrary: s)
  case Nil show ?case by simp
next
  case (Cons ev evs)
  obtain b ok where ev: "ev = (b, ok)" by (cases ev)
  show ?case
    using Cons[of "fst (snd (tracker_fetch b ok s))"] fetch_counters(2)[of b ok s]
    by (cases b) (simp_all add: ev state_of_def)
qed

lemma record_events_cacheMisses:
  "cacheMisses (record_events evs s) = cacheMisses s + recorded_misses evs"
proof (induction evs arbitrary: s)
  case Nil show ?case by simp
next
  case (Cons ev evs)
  obtain b ok where ev: "ev = (b, ok)" by (cases ev)
  show ?case
    using Cons[of "fst (snd (tracker_fetch b ok s))"] fetch_counters(3)[of b ok s]
    by (cases b) (simp_all add: ev state_of_def)
qed

lemma record_events_d1Failures: "d1Failures (record_events evs s) = d1Failures s"
  by (induction evs arbitrary: s) (auto simp: fetch_counters[unfolded state_of_def])

lemma record_events_alarmTime: "alarmTime (record_events evs s) = alarmTime s"
  by (induction evs arbitrary: s) (auto simp: fetch_counters[unfolded state_of_def])

lemma recorded_nonneg: "0 \<le> recorded init evs" "0 \<le> recorded_hits evs" "0 \<le> recorded_misses evs"
proof -
  show "0 \<le> recorded init evs"
    by (induction init evs rule: recorded.induct) simp_all
  show "0 \<le> recorded_hits evs"
    by (induction evs rule: recorded_hits.induct) simp_all
  show "0 \<le> recorded_misses evs"
    by (induction evs rule: recorded_misses.induct) simp_all
qed

lemma recorded_split:
  "no_null evs \<Longrightarrow> recorded init evs = recorded_hits evs + recorded_misses evs"
  by (induction init evs rule: recorded.induct) (simp_all add: no_null_def)

lemma recorded_bound: "recorded_hits evs + recorded_misses evs \<le> recorded init evs"
  by (induction init evs rule: recorded.induct) simp_all

lemmas record_events_counters = record_events_requests record_events_cacheHits
  record_events_cacheMisses record_events_d1Failures record_events_alarmTime

lemma alarm_requests:
  "requests (state_of (alarm e s)) =
     (if billing_db e \<and> requests s \<noteq> 0
      then (if batch_ok e then recorded (initialized s) (during_batch e)
            else requests s + recorded (initialized s) (during_batch e))
      else 0)"
  by (simp add: alarm_def reschedule_def state_of_def Let_def record_events_counters)

lemma alarm_cacheHits:
  "cacheHits (state_of (alarm e s)) =
     (if \<not> billing_db e then 0
      else if requests s = 0 then cacheHits s
      else if batch_ok e then recorded_hits (during_batch e)
      else cacheHits s + recorded_hits (during_batch e))"
  by (simp add: alarm_def reschedule_def state_of_def Let_def record_events_counters)

lemma alarm_cacheMisses:
  "cacheMisses (state_of (alarm e s)) =
     (if \<not> billing_db e then 0
      else if requests s = 0 then cacheMisses s
      else if batch_ok e then recorded_misses (during_batch e)
      else cacheMisses s + recorded_misses (during_batch e))"
  by (simp add: alarm_def reschedule_def state_of_def Let_def record_events_counters)

lemma alarm_d1Failures:
  "d1Failures (state_of (alarm e s)) =
     (if billing_db e \<and> requests s \<noteq> 0
      then (if batch_ok e then 0 else d1Failures s + 1)
      else d1Failures s)"
  by (simp add: alarm_def reschedule_def state_of_def Let_def record_events_counters)

lemma alarm_initialized:
  "initialized (state_of (alarm e s)) =
     (if billing_db e \<and> requests s \<noteq> 0 then initialized (record_events (during_batch e) s)
      else initialized s)"
  by (simp add: alarm_def reschedule_def state_of_def Let_def)

lemma alarm_storage:
  "storage (state_of (alarm e s)) =
     (if \<not> billing_db e then (if deleteAll_ok e then Map.empty else storage s)
      else if requests s = 0 then storage s
      else let live = record_events (during_batch e) s in
        if \<not> put_ok e then storage live
        else if batch_ok e
        then put_entries [(REQUESTS, Num (recorded (initialized s) (during_batch e))),
                          (CACHE_HITS, Num (recorded_hits (during_batch e))),
                          (CACHE_MISSES, Num (recorded_misses (during_batch e))),
                          (D1_FAILURES, Num 0)] (storage live)
        else put_entries [(D1_FAILURES, Num (d1Failures s + 1))] (storage live))"
  by (simp add: alarm_def reschedule_def state_of_def Let_def record_events_counters)

lemma alarm_alarmTime:
  "alarmTime (state_of (alarm e s)) =
     (if \<not> billing_db e then (if deleteAll_ok e \<and> deleteAlarm_ok e then None else alarmTime s)
      else if setAlarm_ok e then Some (now_alarm e + 60000) else alarmTime s)"
  by (simp add: alarm_def reschedule_def state_of_def Let_def record_events_counters)

lemma alarm_inv:
  assumes inv: "usage_inv s" and typed: "no_null (during_batch e)"
  shows "usage_inv (state_of (alarm e s))"
proof -
  have live: "usage_inv (record_events (during_batch e) s)"
    using inv typed by (rule record_events_inv)
  note rs = recorded_split[OF typed, of "initialized s"]
  have mem: "counters_ok (requests (state_of (alarm e s))) (cacheHits (state_of (alarm e s)))
               (cacheMisses (state_of (alarm e s))) (d1Failures (state_of (alarm e s)))"
    using inv recorded_nonneg(2,3)[of "during_batch e"] rs
    unfolding alarm_requests alarm_cacheHits alarm_cacheMisses alarm_d1Failures
    by (simp add: usage_inv_def counters_ok_def)
  have per: "counters_ok (stored_num (storage (state_of (alarm e s))) REQUESTS)
      (stored_num (storage (state_of (alarm e s))) CACHE_HITS)
      (stored_num (storage (state_of (alarm e s))) CACHE_MISSES)
      (stored_num (storage (state_of (alarm e s))) D1_FAILURES)"
    using inv live recorded_nonneg(2,3)[of "during_batch e"] rs
    unfolding alarm_storage
    by (simp add: usage_inv_def counters_ok_def stored_num_def Let_def)
  show ?thesis using mem per by (simp add: usage_inv_def)
qed

lemma alarm_bound:
  assumes inv: "usage_bound s"
  shows "usage_bound (state_of (alarm e s))"
proof -
  have live: "usage_bound (record_events (during_batch e) s)"
    using inv by (rule record_events_bound)
  note rb = recorded_bound[of "during_batch e" "initialized s"]
  have mem: "counters_bounded (requests (state_of (alarm e s))) (cacheHits (state_of (alarm e s)))
               (cacheMisses (state_of (alarm e s))) (d1Failures (state_of (alarm e s)))"
    using inv recorded_nonneg(2,3)[of "during_batch e"] rb
    unfolding alarm_requests alarm_cacheHits alarm_cacheMisses alarm_d1Failures
    by (simp add: usage_bound_def counters_bounded_def)
  have per: "counters_bounded (stored_num (storage (state_of (alarm e s))) REQUESTS)
      (stored_num (storage (state_of (alarm e s))) CACHE_HITS)
      (stored_num (storage (state_of (alarm e s))) CACHE_MISSES)
      (stored_num (storage (state_of (alarm e s))) D1_FAILURES)"
    using inv live recorded_nonneg(2,3)[of "during_batch e"] rb
    unfolding alarm_storage
    by (simp add: usage_bound_def counters_bounded_def stored_num_def Let_def)
  show ?thesis using mem per by (simp add: usage_bound_def)
qed

subsection \<open>The calls a run issues\<close>

lemma alarm_calls_success:
  "billing_db e \<Longrightarrow> requests s \<noteq> 0 \<Longrightarrow> batch_ok e \<Longrightarrow>
   calls_of (alarm e s) =
     [Batch \<lparr> b_siteId = siteId s, b_now = now_entry e div 1000,
              b_hourStart = (now_hour e div 3600000) * 3600,
              b_requests = requests s, b_cacheHits = cacheHits s, b_cacheMisses = cacheMisses s \<rparr>,
      Console (Flushed (domain s) (requests s) (cacheHits s) (cacheMisses s)),
      Put [(REQUESTS, Num (recorded (initialized s) (during_batch e))),
           (CACHE_HITS, Num (recorded_hits (during_batch e))),
           (CACHE_MISSES, Num (recorded_misses (during_batch e))),
           (D1_FAILURES, Num 0)]] @
     (if put_ok e then [] else [Console (StorageFailedAfterD1 (domain s) (requests s))]) @
     [SetAlarm (now_alarm e + 60000)] @
     (if setAlarm_ok e then [] else [Console (RescheduleFailed (domain s))])"
  by (simp add: alarm_def reschedule_def calls_of_def Let_def record_events_counters)

lemma alarm_calls_failure:
  "billing_db e \<Longrightarrow> requests s \<noteq> 0 \<Longrightarrow> \<not> batch_ok e \<Longrightarrow>
   calls_of (alarm e s) =
     [Batch \<lparr> b_siteId = siteId s, b_now = now_entry e div 1000,
              b_hourStart = (now_hour e div 3600000) * 3600,
              b_requests = requests s, b_cacheHits = cacheHits s, b_cacheMisses = cacheMisses s \<rparr>,
      Put [(D1_FAILURES, Num (d1Failures s + 1))]] @
     (if put_ok e
      then [Console (D1WriteFailed (domain s) (d1Failures s + 1) (requests s + recorded (initialized s) (during_batch e)))] @
           (if D1_FAILURE_ALERT_THRESHOLD \<le> d1Failures s + 1
            then [Console (Alert (d1Failures s + 1) (siteId s) (domain s)
                            (requests s + recorded (initialized s) (during_batch e)))]
            else [])
      else [Console (StorageErrorTrackingFailure (domain s))]) @
     [SetAlarm (now_alarm e + 60000)] @
     (if setAlarm_ok e then [] else [Console (RescheduleFailed (domain s))])"
  by (simp add: alarm_def reschedule_def calls_of_def Let_def record_events_counters)

lemma alarm_calls_idle:
  "billing_db e \<Longrightarrow> requests s = 0 \<Longrightarrow>
   calls_of (alarm e s) =
     [SetAlarm (now_alarm e + 60000)] @ (if setAlarm_ok e then [] else [Console IdleRescheduleFailed])"
  by (simp add: alarm_def reschedule_def calls_of_def Let_def)

lemma alarm_calls_unbound:
  "\<not> billing_db e \<Longrightarrow>
   calls_of (alarm e s) =
     [Console BillingDbNotBound, DeleteAll] @ (if deleteAll_ok e then [DeleteAlarm] else [])"
  by (simp add: alarm_def calls_of_def Let_def)

lemma alarm_completion:
  "fst (alarm e s) = (if billing_db e \<or> deleteAll_ok e \<and> deleteAlarm_ok e then Returned else Threw)"
  by (simp add: alarm_def reschedule_def Let_def split: prod.splits)


subsection \<open>Flush\<close>

text \<open>
  Claim C1. In a run of \<^verbatim>\<open>alarm()\<close> that writes to the sink (the binding is present and
  \<open>requests\<close> is not zero) and whose batch succeeds: the batch carries the values the
  counters had on entry; afterwards each live counter is its value at the time of the
  subtraction (after the record-events that ran during the batch) minus that snapshot, which
  is exactly the number of events recorded meanwhile, so it is not reset to zero when events
  interleaved; the failure counter is 0; the handler issues one \<^verbatim>\<open>put\<close> of the decremented
  counters with \<^verbatim>\<open>d1Failures = 0\<close>, and when that write is accepted the storage reads
  back the same values.
\<close>

theorem flush_success_subtracts_snapshot:
  assumes "billing_db e" and "requests s \<noteq> 0" and "batch_ok e"
  shows "(let live = record_events (during_batch e) s;
              s' = state_of (alarm e s);
              cs = calls_of (alarm e s)
          in Batch \<lparr> b_siteId = siteId s, b_now = now_entry e div 1000,
                      b_hourStart = (now_hour e div 3600000) * 3600,
                      b_requests = requests s, b_cacheHits = cacheHits s,
                      b_cacheMisses = cacheMisses s \<rparr> \<in> set cs \<and>
             requests s' = requests live - requests s \<and>
             cacheHits s' = cacheHits live - cacheHits s \<and>
             cacheMisses s' = cacheMisses live - cacheMisses s \<and>
             requests s' = recorded (initialized s) (during_batch e) \<and>
             cacheHits s' = recorded_hits (during_batch e) \<and>
             cacheMisses s' = recorded_misses (during_batch e) \<and>
             d1Failures s' = 0 \<and>
             Put [(REQUESTS, Num (requests s')), (CACHE_HITS, Num (cacheHits s')),
                  (CACHE_MISSES, Num (cacheMisses s')), (D1_FAILURES, Num 0)] \<in> set cs \<and>
             (put_ok e \<longrightarrow>
                stored_num (storage s') REQUESTS = requests s' \<and>
                stored_num (storage s') CACHE_HITS = cacheHits s' \<and>
                stored_num (storage s') CACHE_MISSES = cacheMisses s' \<and>
                stored_num (storage s') D1_FAILURES = 0))"
proof -
  note a = assms
  have mem: "requests (state_of (alarm e s)) = recorded (initialized s) (during_batch e)"
    "cacheHits (state_of (alarm e s)) = recorded_hits (during_batch e)"
    "cacheMisses (state_of (alarm e s)) = recorded_misses (during_batch e)"
    "d1Failures (state_of (alarm e s)) = 0"
    using a by (simp_all add: alarm_requests alarm_cacheHits alarm_cacheMisses alarm_d1Failures)
  have sto: "put_ok e \<Longrightarrow>
      stored_num (storage (state_of (alarm e s))) REQUESTS = recorded (initialized s) (during_batch e) \<and>
      stored_num (storage (state_of (alarm e s))) CACHE_HITS = recorded_hits (during_batch e) \<and>
      stored_num (storage (state_of (alarm e s))) CACHE_MISSES = recorded_misses (during_batch e) \<and>
      stored_num (storage (state_of (alarm e s))) D1_FAILURES = 0"
    using a by (simp add: alarm_storage stored_num_def)
  show ?thesis
    using mem sto by (simp add: Let_def alarm_calls_success[OF a] record_events_counters)
qed

theorem flush_success_subtracts_snapshot_witness:
  "billing_db example_alarm_env \<and> requests example_tracker \<noteq> 0 \<and> batch_ok example_alarm_env \<and>
   requests (record_events (during_batch example_alarm_env) example_tracker) = 4 \<and>
   requests (state_of (alarm example_alarm_env example_tracker)) = 1 \<and>
   cacheHits (state_of (alarm example_alarm_env example_tracker)) = 1 \<and>
   cacheMisses (state_of (alarm example_alarm_env example_tracker)) = 0 \<and>
   d1Failures (state_of (alarm example_alarm_env example_tracker)) = 0 \<and>
   stored_num (storage (state_of (alarm example_alarm_env example_tracker))) REQUESTS = 1"
proof -
  have h: "billing_db example_alarm_env" "requests example_tracker \<noteq> 0" "batch_ok example_alarm_env"
    by (simp_all add: example_alarm_env_def example_tracker_def)
  have ev: "recorded (initialized example_tracker) (during_batch example_alarm_env) = 1"
     "recorded_hits (during_batch example_alarm_env) = 1"
     "recorded_misses (during_batch example_alarm_env) = 0" "put_ok example_alarm_env"
    by (simp_all add: example_alarm_env_def example_event_def)
  have r: "requests example_tracker = 3" by (simp add: example_tracker_def)
  show ?thesis
    using flush_success_subtracts_snapshot[OF h] h ev r by (simp add: Let_def)
qed




lemma loadFromStorage_inv: "usage_inv s \<Longrightarrow> usage_inv (loadFromStorage s)"
  by (simp add: usage_inv_def loadFromStorage_def Let_def)

lemma loadFromStorage_bound: "usage_bound s \<Longrightarrow> usage_bound (loadFromStorage s)"
  by (simp add: usage_bound_def loadFromStorage_def Let_def)

lemma usage_inv_bound: "usage_inv s \<Longrightarrow> usage_bound s"
  by (simp add: usage_inv_def usage_bound_def counters_ok_def counters_bounded_def)

subsection \<open>Invariant\<close>

text \<open>
  Claim C9. The counters are non-negative and \<open>requests = cacheHits + cacheMisses\<close>, in
  memory and in storage. From a state with that property: \<^verbatim>\<open>fetch\<close> keeps it for every
  storage outcome and every body other than \<^verbatim>\<open>null\<close> (a body that is no JSON, or any value
  of the declared type \<^verbatim>\<open>UsageMetrics\<close>); \<^verbatim>\<open>alarm\<close> keeps it in every environment in which
  no record-event with the body \<^verbatim>\<open>null\<close> interleaves with the batch; the reload on
  re-hydration keeps it. The equation is kept whether or not the instance is initialized.
  For every body and every interleaving, \<^verbatim>\<open>fetch\<close> and \<^verbatim>\<open>alarm\<close> keep the counters
  non-negative and \<open>cacheHits + cacheMisses \<le> requests\<close>.
\<close>

theorem usage_invariant_preserved:
  assumes "usage_inv s"
  shows "(payload \<noteq> Null \<longrightarrow> usage_inv (state_of (tracker_fetch payload ok s))) \<and>
         (no_null (during_batch e) \<longrightarrow> usage_inv (state_of (alarm e s))) \<and>
         usage_inv (loadFromStorage s) \<and>
         usage_bound (state_of (tracker_fetch payload ok s)) \<and>
         usage_bound (state_of (alarm e s))"
  using assms
  by (simp add: fetch_inv alarm_inv loadFromStorage_inv fetch_bound alarm_bound usage_inv_bound)

theorem usage_invariant_preserved_witness:
  "usage_inv example_tracker \<and> fst example_event \<noteq> Null \<and> no_null (during_batch example_alarm_env) \<and>
   usage_inv (state_of (tracker_fetch (fst example_event) True example_tracker)) \<and>
   usage_inv (state_of (alarm example_alarm_env example_tracker)) \<and>
   usage_inv (loadFromStorage example_tracker) \<and>
   usage_bound (state_of (tracker_fetch Null True example_tracker))"
proof -
  have h: "usage_inv example_tracker"
    by (simp add: usage_inv_def counters_ok_def example_tracker_def stored_num_def)
  have t: "fst example_event \<noteq> Null" "no_null (during_batch example_alarm_env)"
    by (simp_all add: example_event_def example_alarm_env_def no_null_def)
  show ?thesis
    using usage_invariant_preserved[OF h, of "fst example_event" True example_alarm_env]
      usage_invariant_preserved[OF h, of Null True example_alarm_env] h t
    by simp
qed

text \<open>
  The equation is not kept by every record-event. A request whose body is the JSON value
  \<^verbatim>\<open>null\<close> passes \<^verbatim>\<open>await request.json()\<close>; on an initialized object
  \<^verbatim>\<open>this.requests += 1\<close> runs and then \<^verbatim>\<open>metrics.cacheHit\<close> throws, and the \<^verbatim>\<open>catch\<close>
  answers 500 without taking the increment back: from 3 requests, 2 hits and 1 miss the
  object goes to 4 requests, 2 hits and 1 miss.
\<close>

theorem null_body_breaks_invariant:
  "usage_inv example_tracker \<and>
   fst (tracker_fetch Null True example_tracker) = 500 \<and>
   requests (state_of (tracker_fetch Null True example_tracker)) = 4 \<and>
   cacheHits (state_of (tracker_fetch Null True example_tracker)) = 2 \<and>
   cacheMisses (state_of (tracker_fetch Null True example_tracker)) = 1 \<and>
   \<not> usage_inv (state_of (tracker_fetch Null True example_tracker))"
  by (simp add: usage_inv_def counters_ok_def example_tracker_def stored_num_def
        tracker_fetch_def state_of_def)

text \<open>
  Hence the invariant holds in every state the object reaches, initialized or not, as long
  as no body is \<^verbatim>\<open>null\<close>, and the bound holds in every state it reaches at all.
\<close>

lemma reachable_typed_usage_inv: "reachable_typed s \<Longrightarrow> usage_inv s"
proof (induction rule: reachable_typed.induct)
  case start
  show ?case by (simp add: usage_inv_def counters_ok_def fresh_tracker_def stored_num_def)
next
  case (event s payload ok)
  then show ?case by (simp add: fetch_inv)
next
  case (flush s e)
  then show ?case by (simp add: alarm_inv)
next
  case (reload s)
  then show ?case by (simp add: loadFromStorage_inv)
qed

lemma reachable_typed_counters_balance:
  "reachable_typed s \<Longrightarrow> requests s = cacheHits s + cacheMisses s \<and> 0 \<le> requests s \<and>
     0 \<le> cacheHits s \<and> 0 \<le> cacheMisses s \<and> 0 \<le> d1Failures s"
  using reachable_typed_usage_inv[of s] by (simp add: usage_inv_def counters_ok_def)

lemma reachable_usage_bound: "reachable s \<Longrightarrow> usage_bound s"
proof (induction rule: reachable.induct)
  case start
  show ?case by (simp add: usage_bound_def counters_bounded_def fresh_tracker_def stored_num_def)
next
  case (event s payload ok)
  then show ?case by (simp add: fetch_bound)
next
  case (flush s e)
  then show ?case by (simp add: alarm_bound)
next
  case (reload s)
  then show ?case by (simp add: loadFromStorage_bound)
qed

lemma reachable_counters_bound:
  "reachable s \<Longrightarrow> cacheHits s + cacheMisses s \<le> requests s \<and> 0 \<le> requests s \<and>
     0 \<le> cacheHits s \<and> 0 \<le> cacheMisses s \<and> 0 \<le> d1Failures s"
  using reachable_usage_bound[of s] by (simp add: usage_bound_def counters_bounded_def)

subsection \<open>Rescheduling\<close>

text \<open>
  Claim C10. With the sink bound, every run of \<^verbatim>\<open>alarm()\<close> (idle or flushing, whatever the
  outcomes of the batch and of the storage writes, whatever interleaves) returns normally
  having called \<^verbatim>\<open>setAlarm(Date.now() + 60000)\<close>, and the alarm is set to that time when the
  call is accepted. With the sink unbound the handler never calls \<^verbatim>\<open>setAlarm\<close>; it calls
  \<^verbatim>\<open>deleteAlarm\<close> after \<^verbatim>\<open>deleteAll\<close>, and no alarm is pending afterwards.
\<close>

theorem alarm_always_reschedules:
  "(billing_db e \<longrightarrow>
      fst (alarm e s) = Returned \<and>
      SetAlarm (now_alarm e + 60000) \<in> set (calls_of (alarm e s)) \<and>
      (setAlarm_ok e \<longrightarrow> alarmTime (state_of (alarm e s)) = Some (now_alarm e + 60000))) \<and>
   (\<not> billing_db e \<longrightarrow>
      \<not> list_ex is_setAlarm (calls_of (alarm e s)) \<and>
      (deleteAll_ok e \<longrightarrow>
         DeleteAlarm \<in> set (calls_of (alarm e s)) \<and>
         (deleteAlarm_ok e \<longrightarrow>
            fst (alarm e s) = Returned \<and> alarmTime (state_of (alarm e s)) = None)))"
proof (cases "billing_db e")
  case True
  have c: "SetAlarm (now_alarm e + 60000) \<in> set (calls_of (alarm e s))"
  proof (cases "requests s = 0")
    case True
    with \<open>billing_db e\<close> show ?thesis by (simp add: alarm_calls_idle)
  next
    case False
    with \<open>billing_db e\<close> show ?thesis
      by (cases "batch_ok e") (simp_all add: alarm_calls_success alarm_calls_failure)
  qed
  with True show ?thesis by (simp add: alarm_completion alarm_alarmTime)
next
  case False
  then show ?thesis
    by (simp add: alarm_calls_unbound alarm_completion alarm_alarmTime is_setAlarm_def)
qed

theorem alarm_always_reschedules_witness:
  "billing_db broken_alarm_env \<and> \<not> batch_ok broken_alarm_env \<and> \<not> put_ok broken_alarm_env \<and> setAlarm_ok broken_alarm_env \<and>
   fst (alarm broken_alarm_env example_tracker) = Returned \<and>
   alarmTime (state_of (alarm broken_alarm_env example_tracker)) = Some 7260500 \<and>
   \<not> billing_db unbound_alarm_env \<and> deleteAll_ok unbound_alarm_env \<and> deleteAlarm_ok unbound_alarm_env \<and>
   alarmTime (state_of (alarm unbound_alarm_env (example_tracker\<lparr> alarmTime := Some 5 \<rparr>))) = None \<and>
   \<not> list_ex is_setAlarm (calls_of (alarm unbound_alarm_env (example_tracker\<lparr> alarmTime := Some 5 \<rparr>)))"
proof -
  have h: "billing_db broken_alarm_env" "\<not> batch_ok broken_alarm_env" "\<not> put_ok broken_alarm_env"
    "setAlarm_ok broken_alarm_env" "now_alarm broken_alarm_env = 7200500"
    by (simp_all add: broken_alarm_env_def example_alarm_env_def)
  have u: "\<not> billing_db unbound_alarm_env" "deleteAll_ok unbound_alarm_env" "deleteAlarm_ok unbound_alarm_env"
    by (simp_all add: unbound_alarm_env_def example_alarm_env_def)
  show ?thesis
    using alarm_always_reschedules[of broken_alarm_env example_tracker]
      alarm_always_reschedules[of unbound_alarm_env "example_tracker\<lparr> alarmTime := Some 5 \<rparr>"] h u
    by simp
qed

end
